theory Spec2Isabelle
  imports Main "HOL-Library.Word"
begin

section \<open>JavaScript values\<close>

text \<open>
  A JavaScript string is a sequence of UTF-16 code units. Literals of the source are
  written \<open>js ''...''\<close>; the two symbols of the console messages that lie outside ASCII
  are given by their code unit.
\<close>

type_synonym jschar = "16 word"
type_synonym jsstring = "jschar list"
type_synonym bytes = "8 word list"

definition js :: "string \<Rightarrow> jsstring" where
  "js s = map of_char s"

definition newline :: jschar where
  "newline = 0x0A"

definition comma :: jschar where
  "comma = 0x2C"

definition slash :: jschar where
  "slash = 0x2F"

definition dot :: jschar where
  "dot = 0x2E"

definition cross_mark :: jschar where
  "cross_mark = 0x274C"

definition check_mark :: jschar where
  "check_mark = 0x2705"

text \<open>
  \<open>String.prototype.split(sep)\<close> for a separator of one code unit: the pieces between
  the occurrences of the separator, the empty string giving one empty piece.
\<close>

fun js_split :: "jschar \<Rightarrow> jsstring \<Rightarrow> jsstring list" where
  "js_split sep [] = [[]]"
| "js_split sep (c # cs) =
     (if c = sep then [] # js_split sep cs
      else (case js_split sep cs of
              [] \<Rightarrow> [[c]]
            | l # ls \<Rightarrow> (c # l) # ls))"

text \<open>\<open>Array.prototype.join(sep)\<close>: the empty array gives the empty string.\<close>

fun js_join :: "jsstring \<Rightarrow> jsstring list \<Rightarrow> jsstring" where
  "js_join sep [] = []"
| "js_join sep [l] = l"
| "js_join sep (l # ls) = l @ sep @ js_join sep ls"

text \<open>
  The code units that \<open>String.prototype.trim\<close> strips: ECMAScript's WhiteSpace
  (TAB, VT, FF, SP, NBSP, ZWNBSP and the space separators of Unicode) and
  LineTerminator (LF, CR, LS, PS).
\<close>

definition js_whitespace :: "jschar \<Rightarrow> bool" where
  "js_whitespace c =
     (c \<in> {0x09, 0x0A, 0x0B, 0x0C, 0x0D, 0x20, 0xA0, 0x1680,
           0x2000, 0x2001, 0x2002, 0x2003, 0x2004, 0x2005, 0x2006, 0x2007,
           0x2008, 0x2009, 0x200A, 0x2028, 0x2029, 0x202F, 0x205F, 0x3000, 0xFEFF})"

definition js_trim :: "jsstring \<Rightarrow> jsstring" where
  "js_trim s = rev (dropWhile js_whitespace (rev (dropWhile js_whitespace s)))"

text \<open>A string used as a condition is true when it is not empty.\<close>

definition truthy :: "jsstring \<Rightarrow> bool" where
  "truthy s = (s \<noteq> [])"

text \<open>\<open>line.replace(/,/g, ' | ')\<close>: every comma, from left to right.\<close>

fun replace_commas :: "jsstring \<Rightarrow> jsstring" where
  "replace_commas [] = []"
| "replace_commas (c # cs) =
     (if c = comma then js '' | '' @ replace_commas cs else c # replace_commas cs)"

text \<open>
  The transformation of \<open>extractSpreadsheetText\<close>:
  \<^verbatim>\<open>lines.filter(line => line.trim()).map(line => line.replace(/,/g, ' | ')).join('\n')\<close>
  over \<^verbatim>\<open>csvText.split('\n')\<close>.
\<close>

definition formatSpreadsheet :: "jsstring \<Rightarrow> jsstring" where
  "formatSpreadsheet csvText =
     (let lines = js_split newline csvText
      in js_join [newline]
           (map replace_commas (filter (\<lambda>line. truthy (js_trim line)) lines)))"


text \<open>
  A number inside a template literal: the decimal digits (the numbers printed by the
  source are string lengths).
\<close>

function js_number :: "nat \<Rightarrow> jsstring" where
  "js_number n =
     (if n < 10 then [of_nat (48 + n)]
      else js_number (n div 10) @ [of_nat (48 + n mod 10)])"
  by pat_completeness auto
termination
  by (relation "measure id") auto

text \<open>
  A value that is thrown, or with which a promise is rejected: a value whose property
  \<open>message\<close> can be read, given with the text that a template literal makes of that
  property (every instance of \<open>Error\<close> is one), or \<open>undefined\<close> or \<open>null\<close>, of which
  no property can be read.
\<close>

datatype js_error = Error jsstring | Undefined | Null

text \<open>
  The \<open>TypeError\<close> of reading \<open>message\<close> from \<open>undefined\<close> or \<open>null\<close>, with the message
  that Node's engine gives it.
\<close>

definition apostrophe :: jschar where
  "apostrophe = 0x27"

definition type_error :: "jsstring \<Rightarrow> js_error" where
  "type_error operand =
     Error (js ''Cannot read properties of '' @ operand @ js '' (reading ''
              @ [apostrophe] @ js ''message'' @ [apostrophe] @ js '')'')"

text \<open>
  What Node's own \<open>fs\<close> functions throw: system errors, which are instances of
  \<open>Error\<close> and have a message.
\<close>

datatype system_error = SystemError (message: jsstring)

section \<open>Node's path module (POSIX)\<close>

text \<open>
  \<open>path.parse\<close> and \<open>path.join\<close> belong to Node's standard library, not to the
  repository; they are modelled after the POSIX variant of that module.

  \<open>path.parse(p).base\<close> is the last component of the path, trailing separators
  ignored. \<open>path.parse(p).name\<close> is the base without its extension, where the
  extension starts at the last dot of the base unless that dot is the first character of
  the base or the base is \<open>..\<close>.
\<close>

definition path_basename :: "jsstring \<Rightarrow> jsstring" where
  "path_basename p =
     rev (takeWhile (\<lambda>c. c \<noteq> slash) (dropWhile (\<lambda>c. c = slash) (rev p)))"

definition path_parse_name :: "jsstring \<Rightarrow> jsstring" where
  "path_parse_name p =
     (let base = path_basename p;
          stem = rev (drop 1 (dropWhile (\<lambda>c. c \<noteq> dot) (rev base)))
      in if dot \<notin> set base \<or> stem = [] \<or> base = [dot, dot] then base else stem)"

text \<open>
  \<open>normalizeString\<close> walks over the segments of a path: empty segments and \<open>.\<close> are
  dropped, \<open>..\<close> removes the segment before it when there is one that is not itself
  \<open>..\<close>, and is kept only where the path may climb above its start.
\<close>

fun normalizeString :: "bool \<Rightarrow> jsstring list \<Rightarrow> jsstring list \<Rightarrow> jsstring list" where
  "normalizeString allowAboveRoot res [] = res"
| "normalizeString allowAboveRoot res (seg # segs) =
     (if seg = [] \<or> seg = [dot] then normalizeString allowAboveRoot res segs
      else if seg = [dot, dot] then
        (if res \<noteq> [] \<and> last res \<noteq> [dot, dot]
         then normalizeString allowAboveRoot (butlast res) segs
         else if allowAboveRoot then normalizeString allowAboveRoot (res @ [seg]) segs
         else normalizeString allowAboveRoot res segs)
      else normalizeString allowAboveRoot (res @ [seg]) segs)"

definition path_normalize :: "jsstring \<Rightarrow> jsstring" where
  "path_normalize path =
     (if path = [] then js ''.''
      else
        (let isAbsolute = (hd path = slash);
             trailingSeparator = (last path = slash);
             p = js_join [slash] (normalizeString (\<not> isAbsolute) [] (js_split slash path))
         in if p = [] then
              (if isAbsolute then [slash]
               else if trailingSeparator then js ''./'' else js ''.'')
            else
              (let p' = (if trailingSeparator then p @ [slash] else p)
               in if isAbsolute then slash # p' else p')))"

text \<open>\<open>path.join(a, b)\<close>: the non-empty arguments joined by a separator, normalized.\<close>

definition path_join :: "jsstring \<Rightarrow> jsstring \<Rightarrow> jsstring" where
  "path_join a b =
     (let joined = (if a = [] then b else if b = [] then a else a @ [slash] @ b)
      in if joined = [] then js ''.'' else path_normalize joined)"

section \<open>The world outside the program\<close>

text \<open>
  A location of the file system: whether the path is absolute, and its normalized
  segments (relative paths are taken from the working directory). Two path strings that
  resolve to the same location name the same file.
\<close>

type_synonym loc = "bool \<times> jsstring list"

definition fs_resolve :: "jsstring \<Rightarrow> loc" where
  "fs_resolve p =
     (let isAbsolute = (p \<noteq> [] \<and> hd p = slash)
      in (isAbsolute, normalizeString (\<not> isAbsolute) [] (js_split slash p)))"

text \<open>The object literals passed to \<open>drive.files.get\<close> and \<open>drive.files.export\<close>.\<close>

record params =
  p_fileId :: jsstring
  p_fields :: "jsstring option"
  p_alt :: "jsstring option"
  p_mimeType :: "jsstring option"

text \<open>
  The calls the program makes to its collaborators. The second argument of the two
  remote calls is the \<open>responseType\<close> option, when one is given.
\<close>

datatype call =
    FilesGet params "jsstring option"
  | FilesExport params "jsstring option"
  | ArrayBufferCollect
  | PdfParse bytes
  | MammothConvertToText bytes

datatype event =
    ConsoleLog jsstring
  | ConsoleError jsstring
  | Call call
  | FsMkdir loc
  | FsWrite loc jsstring

text \<open>\<open>fileMetaData.data\<close>, with the two fields the program reads.\<close>

record metadata =
  md_name :: jsstring
  md_mimeType :: jsstring

text \<open>
  \<open>response.data\<close> of a binary download, as \<open>handleArrayBuffer\<close> probes it: whether
  it is an instance of \<open>ArrayBuffer\<close>; its property \<open>arrayBuffer\<close> (absent, or a method
  whose promise settles with an error or the collected bytes); and what
  \<open>Buffer.from\<close> makes of the value itself.
\<close>

record body =
  instanceof_ArrayBuffer :: bool
  arrayBuffer :: "(js_error + bytes) option"
  buffer_from :: "js_error + bytes"

text \<open>
  The collaborators, fixed for a run: how the remote store settles each request (a
  rejection or the response data, read as the program reads it), the two parsers, and
  whether the operating system refuses to create a directory or to write a file. The
  refusal is a matter of the location alone; the program itself never removes a
  directory or a file.
\<close>

record env =
  drive_metadata :: "call \<Rightarrow> js_error + metadata"
  drive_text :: "call \<Rightarrow> js_error + jsstring"
  drive_body :: "call \<Rightarrow> js_error + body"
  pdfParse :: "bytes \<Rightarrow> js_error + jsstring"
  mammoth_convertToText :: "bytes \<Rightarrow> js_error + jsstring"
  mkdir_error :: "loc \<Rightarrow> system_error option"
  write_error :: "loc \<Rightarrow> system_error option"

text \<open>
  The state the program acts on: the directories and files of the disk, and the
  sequence of its effects (console lines, calls to collaborators, disk operations).
\<close>

record world =
  fs_dirs :: "loc set"
  fs_files :: "loc \<rightharpoonup> jsstring"
  trace :: "event list"

definition emit :: "event \<Rightarrow> world \<Rightarrow> world" where
  "emit ev w = w\<lparr>trace := trace w @ [ev]\<rparr>"

definition console_log :: "jsstring \<Rightarrow> world \<Rightarrow> world" where
  "console_log s w = emit (ConsoleLog s) w"

definition console_error :: "jsstring \<Rightarrow> world \<Rightarrow> world" where
  "console_error s w = emit (ConsoleError s) w"

subsection \<open>Node's fs module\<close>

definition existsSync :: "world \<Rightarrow> jsstring \<Rightarrow> bool" where
  "existsSync w p = (fs_resolve p \<in> fs_dirs w \<or> fs_files w (fs_resolve p) \<noteq> None)"

text \<open>
  The location of a directory and of each directory above it, up to the root or the
  working directory that the path starts from.
\<close>

definition ancestors :: "loc \<Rightarrow> loc list" where
  "ancestors l = map (\<lambda>k. (fst l, take k (snd l))) [0 ..< Suc (length (snd l))]"

text \<open>
  \<open>fs.mkdirSync(p, { recursive: true })\<close> and \<open>fs.writeFileSync(p, text)\<close>: the error
  thrown, if any, and the world after the call. A write replaces the whole content.
\<close>

definition mkdirSync :: "env \<Rightarrow> jsstring \<Rightarrow> world \<Rightarrow> system_error option \<times> world" where
  "mkdirSync env p w =
     (case mkdir_error env (fs_resolve p) of
        Some e \<Rightarrow> (Some e, w)
      | None \<Rightarrow>
          (None, emit (FsMkdir (fs_resolve p))
                   (w\<lparr>fs_dirs := fs_dirs w \<union> set (ancestors (fs_resolve p))\<rparr>)))"

definition writeFileSync ::
  "env \<Rightarrow> jsstring \<Rightarrow> jsstring \<Rightarrow> world \<Rightarrow> system_error option \<times> world" where
  "writeFileSync env p text w =
     (case write_error env (fs_resolve p) of
        Some e \<Rightarrow> (Some e, w)
      | None \<Rightarrow>
          (None, emit (FsWrite (fs_resolve p) text)
                   (w\<lparr>fs_files := (fs_files w)(fs_resolve p \<mapsto> text)\<rparr>)))"

section \<open>read-text.js\<close>

subsection \<open>saveFile\<close>

text \<open>
  The body of the \<open>try\<close> block of \<open>saveFile\<close>: the exception that leaves it, if any,
  and the world at that point.
\<close>

definition saveFile_try ::
  "env \<Rightarrow> jsstring \<Rightarrow> jsstring \<Rightarrow> jsstring \<Rightarrow> world \<Rightarrow> system_error option \<times> world" where
  "saveFile_try env text originalFileName outputDir w =
     (let (thrown, w1) =
            (if \<not> existsSync w outputDir then
               (case mkdirSync env outputDir w of
                  (Some e, w') \<Rightarrow> (Some e, w')
                | (None, w') \<Rightarrow>
                    (None, console_log (js ''<<< Created output directory >>>'') w'))
             else (None, w))
      in case thrown of
           Some e \<Rightarrow> (Some e, w1)
         | None \<Rightarrow>
             (let baseName = path_parse_name originalFileName;
                  outputFileName = baseName @ js ''-converted.txt'';
                  outputPath = path_join outputDir outputFileName
              in case writeFileSync env outputPath text w1 of
                   (Some e, w2) \<Rightarrow> (Some e, w2)
                 | (None, w2) \<Rightarrow>
                     (None, console_log (check_mark # js '' Saved to '' @ outputPath) w2)))"

definition saveFile :: "env \<Rightarrow> jsstring \<Rightarrow> jsstring \<Rightarrow> jsstring \<Rightarrow> world \<Rightarrow> world" where
  "saveFile env text originalFileName outputDir w =
     (case saveFile_try env text originalFileName outputDir w of
        (Some error, w') \<Rightarrow>
          console_error (cross_mark # js '' Error saving file: '' @ message error) w'
      | (None, w') \<Rightarrow> w')"

text \<open>The location that \<open>outputPath\<close> names.\<close>

definition artifact_loc :: "jsstring \<Rightarrow> jsstring \<Rightarrow> loc" where
  "artifact_loc originalFileName outputDir =
     fs_resolve (path_join outputDir (path_parse_name originalFileName @ js ''-converted.txt''))"

subsection \<open>handleArrayBuffer\<close>

text \<open>
  \<open>handleArrayBuffer\<close> either finishes in the job that called it (its promise is then
  settled with the bytes, or with what \<open>Buffer.from\<close> threw), or it calls the
  \<open>arrayBuffer\<close> method of the data and suspends on the promise that call returns.
\<close>

datatype hab = HabAwaitCollect "js_error + bytes" | HabDone "js_error + bytes"

definition handleArrayBuffer :: "body \<Rightarrow> world \<Rightarrow> hab \<times> world" where
  "handleArrayBuffer data w =
     (if instanceof_ArrayBuffer data then (HabDone (buffer_from data), w)
      else (case arrayBuffer data of
              Some collected \<Rightarrow> (HabAwaitCollect collected, emit (Call ArrayBufferCollect) w)
            | None \<Rightarrow> (HabDone (buffer_from data), w)))"


subsection \<open>The extractors\<close>

text \<open>
  An \<open>async\<close> function runs in the job of its caller up to its first \<open>await\<close>, and
  after each \<open>await\<close> continues in a later job of the event loop. One call of
  \<open>extractText\<close> is therefore a task that rests at one of the \<open>await\<close>s of the source
  until the event loop resumes it:
  \<^item> \<open>AwaitMetadata\<close>: \<open>await drive.files.get(...)\<close> in \<open>extractText\<close>;
  \<^item> \<open>AwaitContent\<close>: the \<open>await\<close> of the download or export call in an extractor;
  \<^item> \<open>AwaitCollect\<close>: \<open>await response.data.arrayBuffer()\<close> in \<open>handleArrayBuffer\<close>;
  \<^item> \<open>AwaitBuffer\<close>: \<open>await handleArrayBuffer(textResponse)\<close>;
  \<^item> \<open>AwaitParser\<close>: \<open>await pdfParse(pdfBuffer)\<close> or
    \<open>await mammoth.convertToText(buffer)\<close>;
  \<^item> \<open>AwaitExtractor\<close>: \<open>return await extract...(drive, fileId, fileName)\<close> in
    \<open>extractText\<close>, with the way the extractor's promise has settled;
  \<^item> \<open>Settled\<close>: the promise of \<open>extractText\<close> is rejected (\<open>Inl\<close>) or resolved with
    a string or with \<open>undefined\<close> (\<open>None\<close>).
\<close>

datatype extractor = PDF | Document | Spreadsheet | Presentation | WordDoc | PlainText

datatype parser = PdfParser | Mammoth

datatype pc =
    AwaitMetadata
  | AwaitContent extractor jsstring
  | AwaitCollect parser jsstring "js_error + bytes"
  | AwaitBuffer parser jsstring "js_error + bytes"
  | AwaitParser parser jsstring bytes
  | AwaitExtractor "js_error + jsstring"
  | Settled "js_error + jsstring option"

record task =
  task_fileId :: jsstring
  task_pc :: pc

text \<open>The request each function sends, with the object literals of the source.\<close>

definition metadata_request :: "jsstring \<Rightarrow> call" where
  "metadata_request fid =
     FilesGet \<lparr>p_fileId = fid, p_fields = Some (js ''name, size, mimeType''),
               p_alt = None, p_mimeType = None\<rparr> None"

fun content_request :: "extractor \<Rightarrow> jsstring \<Rightarrow> call" where
  "content_request PDF fid =
     FilesGet \<lparr>p_fileId = fid, p_fields = None, p_alt = Some (js ''media''),
               p_mimeType = None\<rparr> (Some (js ''arraybuffer''))"
| "content_request Document fid =
     FilesExport \<lparr>p_fileId = fid, p_fields = None, p_alt = None,
                  p_mimeType = Some (js ''text/plain'')\<rparr> None"
| "content_request Spreadsheet fid =
     FilesExport \<lparr>p_fileId = fid, p_fields = None, p_alt = None,
                  p_mimeType = Some (js ''text/csv'')\<rparr> None"
| "content_request Presentation fid =
     FilesExport \<lparr>p_fileId = fid, p_fields = None, p_alt = None,
                  p_mimeType = Some (js ''text/plain'')\<rparr> None"
| "content_request WordDoc fid =
     FilesExport \<lparr>p_fileId = fid, p_fields = None, p_alt = Some (js ''media''),
                  p_mimeType = None\<rparr> (Some (js ''arraybuffer''))"
| "content_request PlainText fid =
     FilesGet \<lparr>p_fileId = fid, p_fields = None, p_alt = Some (js ''media''),
               p_mimeType = None\<rparr> (Some (js ''text''))"

text \<open>The directory each extractor passes to \<open>saveFile\<close>.\<close>

fun outputDir :: "extractor \<Rightarrow> jsstring" where
  "outputDir PDF = js ''./saved-outputs/pdf''"
| "outputDir Document = js ''./saved-outputs/document''"
| "outputDir Spreadsheet = js ''./saved-outputs/spreadsheet''"
| "outputDir Presentation = js ''./saved-outputs/presentation''"
| "outputDir WordDoc = js ''./saved-outputs/word-doc''"
| "outputDir PlainText = js ''./saved-outputs/plain-text''"

text \<open>
  The first job of every extractor: the console line, then the request; the extractor
  then rests at \<open>AwaitContent\<close>.
\<close>

definition extractor_start :: "extractor \<Rightarrow> jsstring \<Rightarrow> jsstring \<Rightarrow> world \<Rightarrow> pc \<times> world" where
  "extractor_start e fid fileName w =
     (AwaitContent e fileName,
      emit (Call (content_request e fid))
        (console_log (js ''Extracting text from file '' @ fileName @ js ''...'') w))"

text \<open>
  The job of \<open>extractPDFText\<close> and of \<open>extractWordDoc\<close> after the download: a rejected
  request rejects the extractor's promise; otherwise \<open>handleArrayBuffer\<close> is called and
  awaited.
\<close>

definition await_handleArrayBuffer :: "parser \<Rightarrow> jsstring \<Rightarrow> hab \<times> world \<Rightarrow> pc \<times> world" where
  "await_handleArrayBuffer p fileName r =
     (case r of
        (HabAwaitCollect collected, w) \<Rightarrow> (AwaitCollect p fileName collected, w)
      | (HabDone buffer, w) \<Rightarrow> (AwaitBuffer p fileName buffer, w))"

definition extractPDFText_content :: "env \<Rightarrow> jsstring \<Rightarrow> jsstring \<Rightarrow> world \<Rightarrow> pc \<times> world" where
  "extractPDFText_content env fid fileName w =
     (case drive_body env (content_request PDF fid) of
        Inl err \<Rightarrow> (AwaitExtractor (Inl err), w)
      | Inr textResponse \<Rightarrow>
          await_handleArrayBuffer PdfParser fileName (handleArrayBuffer textResponse w))"

definition extractWordDoc_content :: "env \<Rightarrow> jsstring \<Rightarrow> jsstring \<Rightarrow> world \<Rightarrow> pc \<times> world" where
  "extractWordDoc_content env fid fileName w =
     (case drive_body env (content_request WordDoc fid) of
        Inl err \<Rightarrow> (AwaitExtractor (Inl err), w)
      | Inr textResponse \<Rightarrow>
          await_handleArrayBuffer Mammoth fileName (handleArrayBuffer textResponse w))"

definition extractDocumentText_content :: "env \<Rightarrow> jsstring \<Rightarrow> jsstring \<Rightarrow> world \<Rightarrow> pc \<times> world" where
  "extractDocumentText_content env fid fileName w =
     (case drive_text env (content_request Document fid) of
        Inl err \<Rightarrow> (AwaitExtractor (Inl err), w)
      | Inr data \<Rightarrow>
          (AwaitExtractor (Inr data),
           saveFile env data fileName (outputDir Document)
             (console_log (js ''<<< Extracted '' @ js_number (length data)
                             @ js '' characters from Google Doc >>>'') w)))"

definition extractSpreadsheetText_content :: "env \<Rightarrow> jsstring \<Rightarrow> jsstring \<Rightarrow> world \<Rightarrow> pc \<times> world" where
  "extractSpreadsheetText_content env fid fileName w =
     (case drive_text env (content_request Spreadsheet fid) of
        Inl err \<Rightarrow> (AwaitExtractor (Inl err), w)
      | Inr csvText \<Rightarrow>
          (let formattedText = formatSpreadsheet csvText
           in (AwaitExtractor (Inr formattedText),
               saveFile env formattedText fileName (outputDir Spreadsheet) w)))"

definition extractPresentationText_content :: "env \<Rightarrow> jsstring \<Rightarrow> jsstring \<Rightarrow> world \<Rightarrow> pc \<times> world" where
  "extractPresentationText_content env fid fileName w =
     (case drive_text env (content_request Presentation fid) of
        Inl err \<Rightarrow> (AwaitExtractor (Inl err), w)
      | Inr data \<Rightarrow>
          (AwaitExtractor (Inr data),
           saveFile env data fileName (outputDir Presentation) w))"

definition extractPlainText_content :: "env \<Rightarrow> jsstring \<Rightarrow> jsstring \<Rightarrow> world \<Rightarrow> pc \<times> world" where
  "extractPlainText_content env fid fileName w =
     (case drive_text env (content_request PlainText fid) of
        Inl err \<Rightarrow> (AwaitExtractor (Inl err), w)
      | Inr data \<Rightarrow>
          (AwaitExtractor (Inr data),
           saveFile env data fileName (outputDir PlainText) w))"

fun extractor_content :: "extractor \<Rightarrow> env \<Rightarrow> jsstring \<Rightarrow> jsstring \<Rightarrow> world \<Rightarrow> pc \<times> world" where
  "extractor_content PDF = extractPDFText_content"
| "extractor_content Document = extractDocumentText_content"
| "extractor_content Spreadsheet = extractSpreadsheetText_content"
| "extractor_content Presentation = extractPresentationText_content"
| "extractor_content WordDoc = extractWordDoc_content"
| "extractor_content PlainText = extractPlainText_content"

text \<open>
  The jobs of \<open>extractPDFText\<close> and \<open>extractWordDoc\<close> after \<open>handleArrayBuffer\<close>: the
  parser is called on the buffer and awaited; its text is saved and returned.
\<close>

fun parser_call :: "parser \<Rightarrow> bytes \<Rightarrow> call" where
  "parser_call PdfParser buffer = PdfParse buffer"
| "parser_call Mammoth buffer = MammothConvertToText buffer"

fun parser_result :: "env \<Rightarrow> parser \<Rightarrow> bytes \<Rightarrow> js_error + jsstring" where
  "parser_result env PdfParser buffer = pdfParse env buffer"
| "parser_result env Mammoth buffer = mammoth_convertToText env buffer"

fun parser_outputDir :: "parser \<Rightarrow> jsstring" where
  "parser_outputDir PdfParser = outputDir PDF"
| "parser_outputDir Mammoth = outputDir WordDoc"

definition extractor_buffer :: "parser \<Rightarrow> jsstring \<Rightarrow> js_error + bytes \<Rightarrow> world \<Rightarrow> pc \<times> world" where
  "extractor_buffer p fileName r w =
     (case r of
        Inl err \<Rightarrow> (AwaitExtractor (Inl err), w)
      | Inr buffer \<Rightarrow> (AwaitParser p fileName buffer, emit (Call (parser_call p buffer)) w))"

definition extractor_parsed :: "env \<Rightarrow> parser \<Rightarrow> jsstring \<Rightarrow> bytes \<Rightarrow> world \<Rightarrow> pc \<times> world" where
  "extractor_parsed env p fileName buffer w =
     (case parser_result env p buffer of
        Inl err \<Rightarrow> (AwaitExtractor (Inl err), w)
      | Inr text \<Rightarrow>
          (AwaitExtractor (Inr text), saveFile env text fileName (parser_outputDir p) w))"

subsection \<open>extractText\<close>

text \<open>The \<open>switch (mimeType)\<close>: the extractor of each case label, \<open>None\<close> for \<open>default\<close>.\<close>

definition extractor_for :: "jsstring \<Rightarrow> extractor option" where
  "extractor_for mime =
     (if mime = js ''application/pdf'' then Some PDF
      else if mime = js ''application/vnd.google-apps.document'' then Some Document
      else if mime = js ''application/vnd.google-apps.spreadsheet'' then Some Spreadsheet
      else if mime = js ''application/vnd.google-apps.presentation'' then Some Presentation
      else if mime = js ''application/vnd.openxmlformats-officedocument.wordprocessingml.document''
        then Some WordDoc
      else if mime = js ''text/plain'' then Some PlainText
      else None)"

text \<open>
  The \<open>catch\<close> block of \<open>extractText\<close>: the template literal reads \<open>error.message\<close>.
  Where that can be read the line goes to the console and the function ends, so its
  promise is resolved with \<open>undefined\<close>. Where the caught value is \<open>undefined\<close> or
  \<open>null\<close> the reading throws inside the \<open>catch\<close> block, before anything is printed,
  and the promise is rejected with that \<open>TypeError\<close>.
\<close>

definition extractText_catch :: "js_error \<Rightarrow> world \<Rightarrow> pc \<times> world" where
  "extractText_catch error w =
     (case error of
        Error text \<Rightarrow>
          (Settled (Inr None),
           console_error (js ''Error extracting text from file: '' @ text) w)
      | Undefined \<Rightarrow> (Settled (Inl (type_error (js ''undefined''))), w)
      | Null \<Rightarrow> (Settled (Inl (type_error (js ''null''))), w))"

text \<open>The call \<open>extractText(drive, fileId)\<close>, up to its first \<open>await\<close>.\<close>

definition extractText :: "jsstring \<Rightarrow> world \<Rightarrow> task \<times> world" where
  "extractText fid w =
     (\<lparr>task_fileId = fid, task_pc = AwaitMetadata\<rparr>, emit (Call (metadata_request fid)) w)"

definition extractText_metadata :: "env \<Rightarrow> jsstring \<Rightarrow> world \<Rightarrow> pc \<times> world" where
  "extractText_metadata env fid w =
     (case drive_metadata env (metadata_request fid) of
        Inl err \<Rightarrow> extractText_catch err w
      | Inr fileMetaData \<Rightarrow>
          (case extractor_for (md_mimeType fileMetaData) of
             Some e \<Rightarrow> extractor_start e fid (md_name fileMetaData) w
           | None \<Rightarrow>
               extractText_catch
                 (Error (js ''Unsupported file type: '' @ md_mimeType fileMetaData)) w))"

definition extractText_return :: "js_error + jsstring \<Rightarrow> world \<Rightarrow> pc \<times> world" where
  "extractText_return r w =
     (case r of
        Inl err \<Rightarrow> extractText_catch err w
      | Inr text \<Rightarrow> (Settled (Inr (Some text)), w))"

text \<open>One resumption of a task by the event loop: the job that runs up to the next \<open>await\<close>.\<close>

fun resume_pc :: "env \<Rightarrow> jsstring \<Rightarrow> pc \<Rightarrow> world \<Rightarrow> pc \<times> world" where
  "resume_pc env fid AwaitMetadata w = extractText_metadata env fid w"
| "resume_pc env fid (AwaitContent e fileName) w = extractor_content e env fid fileName w"
| "resume_pc env fid (AwaitCollect p fileName collected) w = (AwaitBuffer p fileName collected, w)"
| "resume_pc env fid (AwaitBuffer p fileName r) w = extractor_buffer p fileName r w"
| "resume_pc env fid (AwaitParser p fileName buffer) w = extractor_parsed env p fileName buffer w"
| "resume_pc env fid (AwaitExtractor r) w = extractText_return r w"
| "resume_pc env fid (Settled r) w = (Settled r, w)"

definition step :: "env \<Rightarrow> task \<Rightarrow> world \<Rightarrow> task \<times> world" where
  "step env t w =
     (let (pc', w') = resume_pc env (task_fileId t) (task_pc t) w
      in (t\<lparr>task_pc := pc'\<rparr>, w'))"

fun is_settled :: "pc \<Rightarrow> bool" where
  "is_settled (Settled r) = True"
| "is_settled other = False"

fun is_rejected :: "pc \<Rightarrow> bool" where
  "is_rejected (Settled (Inl err)) = True"
| "is_rejected other = False"

section \<open>index.js\<close>

text \<open>An entry of \<open>res.data.files\<close>.\<close>

record drive_file =
  f_id :: jsstring
  f_name :: jsstring
  f_mimeType :: jsstring

definition fileTypes :: "jsstring set" where
  "fileTypes =
     {js ''application/pdf'',
      js ''application/vnd.google-apps.document'',
      js ''application/vnd.google-apps.spreadsheet'',
      js ''application/vnd.google-apps.presentation'',
      js ''application/vnd.openxmlformats-officedocument.wordprocessingml.document'',
      js ''text/plain''}"

text \<open>
  \<open>files.forEach\<close> with the callback of \<open>main\<close>: the promises that the calls of
  \<open>extractText\<close> return are dropped by the source; the model keeps the tasks behind
  them, in the order of their creation, to follow what becomes of them.
\<close>

fun forEach_file :: "drive_file list \<Rightarrow> world \<Rightarrow> task list \<times> world" where
  "forEach_file [] w = ([], w)"
| "forEach_file (entry # rest) w =
     (if f_mimeType entry \<in> fileTypes then
        (let (t, w1) = extractText (f_id entry) w;
             (ts, w2) = forEach_file rest w1
         in (t # ts, w2))
      else
        forEach_file rest
          (console_log (cross_mark # js '' Skipping file '' @ f_name entry
                          @ js '' because it is not a supported file type'') w))"

text \<open>
  The last job of \<open>main\<close>, from \<open>const files = res.data.files\<close> to the end of its body
  (authorization and listing, which come before, are given: \<open>files\<close> is the listing).
  When this job ends the body of \<open>main\<close> has ended, so the promise that \<open>main()\<close>
  returned is resolved in the world and with the tasks that this function returns.
\<close>

definition main :: "drive_file list \<Rightarrow> world \<Rightarrow> task list \<times> world" where
  "main files w =
     (if length files \<noteq> 0 then forEach_file files w
      else ([], console_log (cross_mark # js '' No Files Found'') w))"

subsection \<open>The event loop\<close>

text \<open>
  After \<open>main\<close> the event loop resumes the suspended tasks, one job at a time, in an
  order that the arrival of the responses decides: a schedule is the sequence of the
  indices of the tasks resumed.
\<close>

definition resume :: "env \<Rightarrow> nat \<Rightarrow> task list \<times> world \<Rightarrow> task list \<times> world" where
  "resume env i s =
     (if i < length (fst s) then
        (let (t', w') = step env (fst s ! i) (snd s)
         in ((fst s)[i := t'], w'))
      else s)"

fun run :: "env \<Rightarrow> nat list \<Rightarrow> task list \<times> world \<Rightarrow> task list \<times> world" where
  "run env [] s = s"
| "run env (i # sched) s = run env sched (resume env i s)"

text \<open>
  A schedule is complete for \<open>n\<close> tasks when it resumes each of them six times: no
  task has more than six \<open>await\<close>s on its way.
\<close>

definition complete :: "nat list \<Rightarrow> nat \<Rightarrow> bool" where
  "complete sched n = list_all (\<lambda>i. 6 \<le> count_list sched i) [0 ..< n]"

text \<open>The resumptions of one task alone, \<open>k\<close> of them in a row.\<close>

primrec steps :: "env \<Rightarrow> nat \<Rightarrow> task \<Rightarrow> world \<Rightarrow> task \<times> world" where
  "steps env 0 t w = (t, w)"
| "steps env (Suc k) t w = (case step env t w of (t', w') \<Rightarrow> steps env k t' w')"

text \<open>The number of \<open>await\<close>s that may still lie before a task.\<close>

fun rank :: "pc \<Rightarrow> nat" where
  "rank AwaitMetadata = 6"
| "rank (AwaitContent e n) = 5"
| "rank (AwaitCollect p n r) = 4"
| "rank (AwaitBuffer p n r) = 3"
| "rank (AwaitParser p n b) = 2"
| "rank (AwaitExtractor r) = 1"
| "rank (Settled r) = 0"

text \<open>
  What one world hands on to another in which the same task runs later or among other
  tasks: the output directories that exist, the files that exist, and the writes that
  have been made.
\<close>

definition carries :: "world \<Rightarrow> world \<Rightarrow> bool" where
  "carries w w' =
     ((\<forall>e. existsSync w (outputDir e) \<longrightarrow> existsSync w' (outputDir e))
      \<and> (\<forall>l. fs_files w l \<noteq> None \<longrightarrow> fs_files w' l \<noteq> None)
      \<and> (\<forall>l t. FsWrite l t \<in> set (trace w) \<longrightarrow> FsWrite l t \<in> set (trace w')))"

section \<open>What the specification says\<close>

text \<open>
  The transformation in the words of the specification: the body is split into lines,
  the lines that hold nothing but white space are removed, every comma of a remaining
  line becomes the delimiter, and the lines are joined by newlines again.
\<close>

definition spreadsheet_spec :: "jsstring \<Rightarrow> jsstring" where
  "spreadsheet_spec body =
     js_join [newline]
       (map (\<lambda>line. concat (map (\<lambda>c. if c = comma then js '' | '' else [c]) line))
          (filter (\<lambda>line. \<not> list_all js_whitespace line) (js_split newline body)))"

text \<open>
  The MIME type that the specification gives each extraction category (its section on
  the supported set): PDF document, native document, native spreadsheet, native
  presentation, OpenXML word-processing document, plain text.
\<close>

fun mime_of :: "extractor \<Rightarrow> jsstring" where
  "mime_of PDF = js ''application/pdf''"
| "mime_of Document = js ''application/vnd.google-apps.document''"
| "mime_of Spreadsheet = js ''application/vnd.google-apps.spreadsheet''"
| "mime_of Presentation = js ''application/vnd.google-apps.presentation''"
| "mime_of WordDoc =
     js ''application/vnd.openxmlformats-officedocument.wordprocessingml.document''"
| "mime_of PlainText = js ''text/plain''"

text \<open>
  The directory of each category in the specification's table of extractors, and the
  path it gives the artifact of a source file:
  \<^verbatim>\<open>./saved-outputs/<category>/<base-name>-converted.txt\<close>, where the base name is the
  name of the source file with its extension stripped: the part of the name before its
  last dot, or the whole name when it has no dot or when nothing stands before the last
  dot.
\<close>

fun category :: "extractor \<Rightarrow> string" where
  "category PDF = ''pdf''"
| "category Document = ''document''"
| "category Spreadsheet = ''spreadsheet''"
| "category Presentation = ''presentation''"
| "category WordDoc = ''word-doc''"
| "category PlainText = ''plain-text''"

definition category_dir :: "extractor \<Rightarrow> jsstring" where
  "category_dir e = js ''./saved-outputs/'' @ js (category e)"

fun before_last_dot :: "jsstring \<Rightarrow> jsstring" where
  "before_last_dot [] = []"
| "before_last_dot (c # cs) =
     (if c = dot \<and> dot \<notin> set cs then [] else c # before_last_dot cs)"

definition strip_extension :: "jsstring \<Rightarrow> jsstring" where
  "strip_extension sourceFileName =
     (if before_last_dot sourceFileName = [] then sourceFileName
      else before_last_dot sourceFileName)"

definition artifact_path :: "extractor \<Rightarrow> jsstring \<Rightarrow> jsstring" where
  "artifact_path e sourceFileName =
     category_dir e @ [slash] @ strip_extension sourceFileName @ js ''-converted.txt''"

text \<open>
  What the \<open>try\<close> block of \<open>extractText\<close> comes to, as a function of the answers it
  gets: the value thrown when the metadata request, the content request, the
  normalization of the body or the parser fails or the type is not supported, the
  extracted text otherwise. The disk does not occur in it.
\<close>

definition normalized :: "body \<Rightarrow> js_error + bytes" where
  "normalized data =
     (if instanceof_ArrayBuffer data then buffer_from data
      else (case arrayBuffer data of Some collected \<Rightarrow> collected | None \<Rightarrow> buffer_from data))"

definition buffered :: "env \<Rightarrow> parser \<Rightarrow> js_error + bytes \<Rightarrow> js_error + jsstring" where
  "buffered env p r =
     (case r of Inl err \<Rightarrow> Inl err | Inr buffer \<Rightarrow> parser_result env p buffer)"

definition parsed :: "env \<Rightarrow> parser \<Rightarrow> js_error + body \<Rightarrow> js_error + jsstring" where
  "parsed env p r =
     (case r of Inl err \<Rightarrow> Inl err | Inr data \<Rightarrow> buffered env p (normalized data))"

fun extracted :: "env \<Rightarrow> extractor \<Rightarrow> jsstring \<Rightarrow> js_error + jsstring" where
  "extracted env PDF fid = parsed env PdfParser (drive_body env (content_request PDF fid))"
| "extracted env WordDoc fid = parsed env Mammoth (drive_body env (content_request WordDoc fid))"
| "extracted env Spreadsheet fid =
     map_sum id formatSpreadsheet (drive_text env (content_request Spreadsheet fid))"
| "extracted env e fid = drive_text env (content_request e fid)"

definition attempt :: "env \<Rightarrow> jsstring \<Rightarrow> js_error + jsstring" where
  "attempt env fid =
     (case drive_metadata env (metadata_request fid) of
        Inl err \<Rightarrow> Inl err
      | Inr fileMetaData \<Rightarrow>
          (case extractor_for (md_mimeType fileMetaData) of
             None \<Rightarrow> Inl (Error (js ''Unsupported file type: '' @ md_mimeType fileMetaData))
           | Some e \<Rightarrow> extracted env e fid))"

text \<open>
  How the promise of \<open>extractText\<close> settles after that: resolved with the text, resolved
  with \<open>undefined\<close> when the value caught has a message, rejected when the value caught
  is \<open>undefined\<close> or \<open>null\<close>.
\<close>

fun settled :: "js_error + jsstring \<Rightarrow> js_error + jsstring option" where
  "settled (Inr text) = Inr (Some text)"
| "settled (Inl (Error text)) = Inr None"
| "settled (Inl Undefined) = Inl (type_error (js ''undefined''))"
| "settled (Inl Null) = Inl (type_error (js ''null''))"

fun nullish :: "js_error + 'a \<Rightarrow> bool" where
  "nullish (Inl Undefined) = True"
| "nullish (Inl Null) = True"
| "nullish other = False"

text \<open>
  Collaborators that never throw \<open>undefined\<close> or \<open>null\<close> and never reject with them, as
  is the case when every failure is an instance of \<open>Error\<close>.
\<close>

definition messages_only :: "env \<Rightarrow> bool" where
  "messages_only env =
     ((\<forall>request. \<not> nullish (drive_metadata env request))
      \<and> (\<forall>request. \<not> nullish (drive_text env request))
      \<and> (\<forall>request. \<not> nullish (parsed env PdfParser (drive_body env request)))
      \<and> (\<forall>request. \<not> nullish (parsed env Mammoth (drive_body env request))))"

text \<open>The lines that \<open>console.error\<close> has printed.\<close>

fun console_errors :: "event list \<Rightarrow> jsstring list" where
  "console_errors [] = []"
| "console_errors (ConsoleError line # evs) = line # console_errors evs"
| "console_errors (ev # evs) = console_errors evs"

section \<open>Example inputs\<close>

text \<open>
  A remote store that answers every metadata request with the given name and type,
  every text request with \<open>hello\<close> and every binary request with an \<open>ArrayBuffer\<close> of
  three bytes; parsers that succeed; a disk that refuses nothing.
\<close>

definition example_env :: "jsstring \<Rightarrow> jsstring \<Rightarrow> env" where
  "example_env name mime =
     \<lparr>drive_metadata = (\<lambda>request. Inr \<lparr>md_name = name, md_mimeType = mime\<rparr>),
      drive_text = (\<lambda>request. Inr (js ''hello'')),
      drive_body = (\<lambda>request. Inr \<lparr>instanceof_ArrayBuffer = True, arrayBuffer = None,
                                     buffer_from = Inr [1, 2, 3]\<rparr>),
      pdfParse = (\<lambda>buffer. Inr (js ''pdf text'')),
      mammoth_convertToText = (\<lambda>buffer. Inr (js ''word text'')),
      mkdir_error = (\<lambda>l. None),
      write_error = (\<lambda>l. None)\<rparr>"

definition empty_world :: world where
  "empty_world = \<lparr>fs_dirs = {}, fs_files = Map.empty, trace = []\<rparr>"

definition example_file :: "string \<Rightarrow> string \<Rightarrow> string \<Rightarrow> drive_file" where
  "example_file ident name mime = \<lparr>f_id = js ident, f_name = js name, f_mimeType = js mime\<rparr>"

text \<open>The same store over a disk that refuses every write.\<close>

definition readonly_env :: env where
  "readonly_env =
     (example_env (js ''notes.txt'') (js ''text/plain''))
       \<lparr>write_error := \<lambda>l. Some (SystemError (js ''EACCES''))\<rparr>"

text \<open>
  A store with two files: \<open>bad\<close> is a PDF, every other identifier a plain text; the
  PDF parser rejects what it is given.
\<close>

definition mixed_env :: env where
  "mixed_env =
     \<lparr>drive_metadata =
        (\<lambda>request. if request = metadata_request (js ''bad'')
           then Inr \<lparr>md_name = js ''broken.pdf'', md_mimeType = js ''application/pdf''\<rparr>
           else Inr \<lparr>md_name = js ''notes.txt'', md_mimeType = js ''text/plain''\<rparr>),
      drive_text = (\<lambda>request. Inr (js ''hello'')),
      drive_body = (\<lambda>request. Inr \<lparr>instanceof_ArrayBuffer = True, arrayBuffer = None,
                                     buffer_from = Inr [1, 2, 3]\<rparr>),
      pdfParse = (\<lambda>buffer. Inl (Error (js ''Invalid PDF structure''))),
      mammoth_convertToText = (\<lambda>buffer. Inr (js ''word text'')),
      mkdir_error = (\<lambda>l. None),
      write_error = (\<lambda>l. None)\<rparr>"

text \<open>
  A store with two files whose request for the metadata of \<open>bad\<close> is rejected with
  \<open>undefined\<close>; every other identifier is a plain text.
\<close>

definition undefined_env :: env where
  "undefined_env =
     (example_env (js ''notes.txt'') (js ''text/plain''))
       \<lparr>drive_metadata :=
          \<lambda>request. if request = metadata_request (js ''bad'') then Inl Undefined
            else Inr \<lparr>md_name = js ''notes.txt'', md_mimeType = js ''text/plain''\<rparr>\<rparr>"

text \<open>The three shapes of a response body, and one that matches the first two probes.\<close>

definition binary_body :: body where
  "binary_body = \<lparr>instanceof_ArrayBuffer = True, arrayBuffer = None, buffer_from = Inr [1, 2]\<rparr>"

definition stream_body :: body where
  "stream_body = \<lparr>instanceof_ArrayBuffer = False, arrayBuffer = Some (Inr [3, 4]),
                    buffer_from = Inl (Error (js ''not bytes''))\<rparr>"

definition plain_body :: body where
  "plain_body = \<lparr>instanceof_ArrayBuffer = False, arrayBuffer = None, buffer_from = Inr [5, 6]\<rparr>"

definition both_body :: body where
  "both_body = \<lparr>instanceof_ArrayBuffer = True, arrayBuffer = Some (Inr [3, 4]),
                  buffer_from = Inr [1, 2]\<rparr>"

section \<open>Properties\<close>

subsection \<open>Strings\<close>

lemma js_split_not_Nil: "js_split sep s \<noteq> []"
  by (induction s) (auto split: list.splits)

lemma js_join_js_split: "js_join [sep] (js_split sep s) = s"
proof (induction s)
  case Nil
  show ?case by simp
next
  case (Cons c cs)
  obtain l ls where split: "js_split sep cs = l # ls"
    using js_split_not_Nil [of sep cs] by (cases "js_split sep cs") auto
  show ?case
  proof (cases "c = sep")
    case True
    with Cons split show ?thesis by simp
  next
    case False
    with Cons split show ?thesis by (cases ls) auto
  qed
qed

lemma js_split_no_sep: "sep \<notin> set (concat (js_split sep s))"
  by (induction s) (auto split: list.splits)

lemma unat_of_char: "unat (of_char c :: jschar) = of_char c"
proof -
  have "(of_char c :: jschar) = of_nat (of_char c)"
    by (simp add: of_nat_of_char)
  moreover have "(of_char c :: nat) < 2 ^ 16"
    by (rule less_trans [OF nat_of_char_less_256]) simp
  ultimately show ?thesis
    by (simp add: unat_of_nat)
qed

lemma of_char_jschar_inj: "inj (of_char :: char \<Rightarrow> jschar)"
proof (rule injI)
  fix x y :: char
  assume "(of_char x :: jschar) = of_char y"
  then have "unat (of_char x :: jschar) = unat (of_char y :: jschar)"
    by simp
  then show "x = y"
    by (simp add: unat_of_char)
qed

lemma js_eq_iff: "js a = js b \<longleftrightarrow> a = b"
  unfolding js_def by (rule inj_map_eq_map) (rule of_char_jschar_inj)

lemma trim_blank: "truthy (js_trim line) = (\<not> list_all js_whitespace line)"
proof -
  have "dropWhile js_whitespace line = [] \<longleftrightarrow> list_all js_whitespace line"
    by (simp add: dropWhile_eq_Nil_conv list_all_iff)
  moreover have "dropWhile js_whitespace (rev (dropWhile js_whitespace line)) = []
      \<longleftrightarrow> dropWhile js_whitespace line = []"
  proof (cases "dropWhile js_whitespace line")
    case Nil
    show ?thesis unfolding Nil by simp
  next
    case (Cons x xs)
    then have "\<not> js_whitespace x"
      using hd_dropWhile [of js_whitespace line] by simp
    with Cons show ?thesis
      by (auto simp: dropWhile_eq_Nil_conv)
  qed
  ultimately show ?thesis
    by (simp add: truthy_def js_trim_def)
qed

lemma replace_commas_concat:
  "replace_commas line = concat (map (\<lambda>c. if c = comma then js '' | '' else [c]) line)"
  by (induction line) simp_all

lemma formatSpreadsheet_refines: "formatSpreadsheet body = spreadsheet_spec body"
proof -
  have "(\<lambda>line. truthy (js_trim line)) = (\<lambda>line. \<not> list_all js_whitespace line)"
    by (rule ext) (rule trim_blank)
  moreover have "replace_commas =
      (\<lambda>line. concat (map (\<lambda>c. if c = comma then js '' | '' else [c]) line))"
    by (rule ext) (rule replace_commas_concat)
  ultimately show ?thesis
    by (simp add: formatSpreadsheet_def spreadsheet_spec_def)
qed

lemma formatSpreadsheet_example:
  "formatSpreadsheet (js ''a,b,c'' @ [newline, newline] @ js ''1,2,3'' @ [newline])
     = js ''a | b | c'' @ [newline] @ js ''1 | 2 | 3''"
  by (simp add: formatSpreadsheet_def js_def newline_def comma_def truthy_def
      js_trim_def js_whitespace_def)

subsection \<open>The spreadsheet extractor\<close>

text \<open>
  Claim C3. For every body that the export of a spreadsheet returns, the text that
  \<open>extractSpreadsheetText\<close> saves under \<open>./saved-outputs/spreadsheet\<close> and returns is the
  one the specification describes: the body split at its newlines (the pieces hold no
  newline and joined again give the body), without the lines that are empty or all
  white space, every comma of the other lines replaced by \<open>" | "\<close>, the lines joined by
  newlines. The body \<open>"a,b,c\n\n1,2,3\n"\<close> gives \<open>"a | b | c\n1 | 2 | 3"\<close>.
\<close>

theorem spreadsheet_text_as_specified:
  "formatSpreadsheet body = spreadsheet_spec body
   \<and> js_join [newline] (js_split newline body) = body
   \<and> newline \<notin> set (concat (js_split newline body))
   \<and> extractSpreadsheetText_content (env\<lparr>drive_text := \<lambda>request. Inr body\<rparr>) fid fileName w
       = (AwaitExtractor (Inr (spreadsheet_spec body)),
          saveFile (env\<lparr>drive_text := \<lambda>request. Inr body\<rparr>) (spreadsheet_spec body) fileName
            (outputDir Spreadsheet) w)
   \<and> formatSpreadsheet (js ''a,b,c'' @ [newline, newline] @ js ''1,2,3'' @ [newline])
       = js ''a | b | c'' @ [newline] @ js ''1 | 2 | 3''"
proof (intro conjI)
  show "formatSpreadsheet body = spreadsheet_spec body"
    by (rule formatSpreadsheet_refines)
  show "js_join [newline] (js_split newline body) = body"
    by (rule js_join_js_split)
  show "newline \<notin> set (concat (js_split newline body))"
    by (rule js_split_no_sep)
  show "extractSpreadsheetText_content (env\<lparr>drive_text := \<lambda>request. Inr body\<rparr>) fid fileName w
       = (AwaitExtractor (Inr (spreadsheet_spec body)),
          saveFile (env\<lparr>drive_text := \<lambda>request. Inr body\<rparr>) (spreadsheet_spec body) fileName
            (outputDir Spreadsheet) w)"
    by (simp add: extractSpreadsheetText_content_def formatSpreadsheet_refines Let_def)
  show "formatSpreadsheet (js ''a,b,c'' @ [newline, newline] @ js ''1,2,3'' @ [newline])
       = js ''a | b | c'' @ [newline] @ js ''1 | 2 | 3''"
    by (rule formatSpreadsheet_example)
qed


subsection \<open>The shape of a response body\<close>

text \<open>
  Claim C8. \<open>handleArrayBuffer\<close> probes the body in a fixed order and the first match
  wins. A body that is an \<open>ArrayBuffer\<close> is turned into bytes in the calling job, and
  its \<open>arrayBuffer\<close> method, should it have one, is not called. Otherwise a body with an
  \<open>arrayBuffer\<close> method has that method called once, and the promise of
  \<open>handleArrayBuffer\<close> settles as the collection does. Otherwise the body itself is
  handed to \<open>Buffer.from\<close>.
\<close>

theorem handleArrayBuffer_probe_order:
  "(instanceof_ArrayBuffer data \<longrightarrow>
      handleArrayBuffer data w = (HabDone (buffer_from data), w))
   \<and> (\<not> instanceof_ArrayBuffer data \<longrightarrow> arrayBuffer data = Some collected \<longrightarrow>
        handleArrayBuffer data w = (HabAwaitCollect collected, emit (Call ArrayBufferCollect) w)
        \<and> resume_pc env fid
             (fst (await_handleArrayBuffer p fileName (handleArrayBuffer data w))) w'
            = (AwaitBuffer p fileName collected, w'))
   \<and> (\<not> instanceof_ArrayBuffer data \<longrightarrow> arrayBuffer data = None \<longrightarrow>
        handleArrayBuffer data w = (HabDone (buffer_from data), w))"
  by (simp add: handleArrayBuffer_def await_handleArrayBuffer_def)

theorem handleArrayBuffer_probe_order_witness:
  "handleArrayBuffer binary_body empty_world = (HabDone (Inr [1, 2]), empty_world)
   \<and> handleArrayBuffer both_body empty_world = (HabDone (Inr [1, 2]), empty_world)
   \<and> handleArrayBuffer stream_body empty_world
       = (HabAwaitCollect (Inr [3, 4]), emit (Call ArrayBufferCollect) empty_world)
   \<and> resume_pc (example_env [] []) []
        (fst (await_handleArrayBuffer PdfParser []
                (handleArrayBuffer stream_body empty_world))) empty_world
       = (AwaitBuffer PdfParser [] (Inr [3, 4]), empty_world)
   \<and> handleArrayBuffer plain_body empty_world = (HabDone (Inr [5, 6]), empty_world)"
  using handleArrayBuffer_probe_order [of binary_body empty_world "Inr [3, 4]"]
    handleArrayBuffer_probe_order [of both_body empty_world "Inr [3, 4]"]
    handleArrayBuffer_probe_order [of stream_body empty_world "Inr [3, 4]"
      "example_env [] []" "[]" PdfParser "[]" empty_world]
    handleArrayBuffer_probe_order [of plain_body empty_world "Inr [3, 4]"]
  by (simp add: binary_body_def both_body_def stream_body_def plain_body_def
      await_handleArrayBuffer_def)


subsection \<open>Dispatch on the MIME type\<close>

lemma extractor_for_mime_of: "extractor_for (mime_of e) = Some e"
  by (cases e) (simp_all add: extractor_for_def js_eq_iff)

lemma extractor_for_Some: "extractor_for mime = Some e \<longleftrightarrow> mime = mime_of e"
proof
  assume "extractor_for mime = Some e"
  then show "mime = mime_of e"
    by (cases e) (auto simp: extractor_for_def split: if_splits)
next
  assume "mime = mime_of e"
  then show "extractor_for mime = Some e"
    by (simp add: extractor_for_mime_of)
qed

lemma fileTypes_extractor_for: "mime \<in> fileTypes \<longleftrightarrow> extractor_for mime \<noteq> None"
  by (auto simp: fileTypes_def extractor_for_def)

lemma forEach_file_tasks:
  "fst (forEach_file files w) =
     map (\<lambda>f. \<lparr>task_fileId = f_id f, task_pc = AwaitMetadata\<rparr>)
       (filter (\<lambda>f. f_mimeType f \<in> fileTypes) files)"
  by (induction files arbitrary: w) (simp_all add: extractText_def split_beta Let_def)

lemma forEach_file_trace:
  "trace (snd (forEach_file files w)) =
     trace w @ map (\<lambda>f. if f_mimeType f \<in> fileTypes then Call (metadata_request (f_id f))
                         else ConsoleLog (cross_mark # js '' Skipping file '' @ f_name f
                          @ js '' because it is not a supported file type'')) files"
  by (induction files arbitrary: w)
    (simp_all add: extractText_def split_beta Let_def emit_def console_log_def)

lemma forEach_file_fs:
  "fs_dirs (snd (forEach_file files w)) = fs_dirs w
   \<and> fs_files (snd (forEach_file files w)) = fs_files w"
  by (induction files arbitrary: w)
    (simp_all add: extractText_def split_beta Let_def emit_def console_log_def)

lemma main_tasks:
  "fst (main files w) =
     map (\<lambda>f. \<lparr>task_fileId = f_id f, task_pc = AwaitMetadata\<rparr>)
       (filter (\<lambda>f. f_mimeType f \<in> fileTypes) files)"
  by (cases files) (simp_all add: main_def forEach_file_tasks del: forEach_file.simps)

lemma main_trace:
  "trace (snd (main files w)) =
     trace w @
       (if files = [] then [ConsoleLog (cross_mark # js '' No Files Found'')]
        else map (\<lambda>f. if f_mimeType f \<in> fileTypes then Call (metadata_request (f_id f))
                       else ConsoleLog (cross_mark # js '' Skipping file '' @ f_name f
                          @ js '' because it is not a supported file type'')) files)"
  by (cases files)
    (simp_all add: main_def forEach_file_trace console_log_def emit_def del: forEach_file.simps)

lemma extractText_metadata_supported:
  "extractText_metadata
     (env\<lparr>drive_metadata := \<lambda>request. Inr \<lparr>md_name = n, md_mimeType = mime_of e\<rparr>\<rparr>) fid w
    = extractor_start e fid n w"
  by (simp add: extractText_metadata_def extractor_for_mime_of)

text \<open>
  Claim C4. The \<open>switch\<close> of \<open>extractText\<close> selects an extractor exactly for the six
  supported types, and for each of them the extractor of that type and no other; the
  set that \<open>main\<close> tests holds the same six types. \<open>main\<close> starts one call of
  \<open>extractText\<close> for each listed file of a supported type, in the order of the listing,
  and for each other file prints the line that names it and starts nothing. Resumed
  with the metadata of a supported type, \<open>extractText\<close> enters the extractor of that
  type; with any other type it enters none, prints the error and resolves.
\<close>

theorem dispatch_by_mime_type:
  "(extractor_for mime = Some e \<longleftrightarrow> mime = mime_of e)
   \<and> (mime \<in> fileTypes \<longleftrightarrow> extractor_for mime \<noteq> None)
   \<and> fst (main files w) =
       map (\<lambda>f. \<lparr>task_fileId = f_id f, task_pc = AwaitMetadata\<rparr>)
         (filter (\<lambda>f. f_mimeType f \<in> fileTypes) files)
   \<and> trace (snd (main files w)) =
       trace w @
         (if files = [] then [ConsoleLog (cross_mark # js '' No Files Found'')]
          else map (\<lambda>f. if f_mimeType f \<in> fileTypes then Call (metadata_request (f_id f))
                         else ConsoleLog (cross_mark # js '' Skipping file '' @ f_name f
                            @ js '' because it is not a supported file type'')) files)
   \<and> extractText_metadata
        (env\<lparr>drive_metadata := \<lambda>request. Inr \<lparr>md_name = n, md_mimeType = mime_of e\<rparr>\<rparr>) fid w
       = extractor_start e fid n w
   \<and> fst (extractor_start e fid n w) = AwaitContent e n
   \<and> (extractor_for mime = None \<longrightarrow>
        extractText_metadata
          (env\<lparr>drive_metadata := \<lambda>request. Inr \<lparr>md_name = n, md_mimeType = mime\<rparr>\<rparr>) fid w
         = (Settled (Inr None),
            console_error (js ''Error extracting text from file: ''
                             @ js ''Unsupported file type: '' @ mime) w))"
proof (intro conjI)
  show "extractor_for mime = Some e \<longleftrightarrow> mime = mime_of e"
    by (rule extractor_for_Some)
  show "mime \<in> fileTypes \<longleftrightarrow> extractor_for mime \<noteq> None"
    by (rule fileTypes_extractor_for)
  show "fst (main files w) =
       map (\<lambda>f. \<lparr>task_fileId = f_id f, task_pc = AwaitMetadata\<rparr>)
         (filter (\<lambda>f. f_mimeType f \<in> fileTypes) files)"
    by (rule main_tasks)
  show "trace (snd (main files w)) =
       trace w @
         (if files = [] then [ConsoleLog (cross_mark # js '' No Files Found'')]
          else map (\<lambda>f. if f_mimeType f \<in> fileTypes then Call (metadata_request (f_id f))
                         else ConsoleLog (cross_mark # js '' Skipping file '' @ f_name f
                            @ js '' because it is not a supported file type'')) files)"
    by (rule main_trace)
  show "extractText_metadata
        (env\<lparr>drive_metadata := \<lambda>request. Inr \<lparr>md_name = n, md_mimeType = mime_of e\<rparr>\<rparr>) fid w
       = extractor_start e fid n w"
    by (rule extractText_metadata_supported)
  show "fst (extractor_start e fid n w) = AwaitContent e n"
    by (simp add: extractor_start_def)
  show "extractor_for mime = None \<longrightarrow>
        extractText_metadata
          (env\<lparr>drive_metadata := \<lambda>request. Inr \<lparr>md_name = n, md_mimeType = mime\<rparr>\<rparr>) fid w
         = (Settled (Inr None),
            console_error (js ''Error extracting text from file: ''
                             @ js ''Unsupported file type: '' @ mime) w)"
    by (simp add: extractText_metadata_def extractText_catch_def)
qed

theorem dispatch_by_mime_type_witness:
  "extractor_for (js ''image/png'') = None
   \<and> js ''image/png'' \<notin> fileTypes
   \<and> extractor_for (js ''text/plain'') = Some PlainText
   \<and> fst (main [example_file ''id1'' ''a.pdf'' ''application/pdf'',
                 example_file ''id2'' ''pic.png'' ''image/png''] empty_world)
       = [\<lparr>task_fileId = js ''id1'', task_pc = AwaitMetadata\<rparr>]
   \<and> trace (snd (main [example_file ''id1'' ''a.pdf'' ''application/pdf'',
                        example_file ''id2'' ''pic.png'' ''image/png''] empty_world))
       = [Call (metadata_request (js ''id1'')),
          ConsoleLog (cross_mark # js '' Skipping file '' @ js ''pic.png''
                        @ js '' because it is not a supported file type'')]
   \<and> extractText_metadata (example_env (js ''pic.png'') (js ''image/png'')) (js ''id2'')
        empty_world
       = (Settled (Inr None),
          console_error (js ''Error extracting text from file: ''
                           @ js ''Unsupported file type: '' @ js ''image/png'') empty_world)"
proof -
  have none: "extractor_for (js ''image/png'') = None"
    by (simp add: extractor_for_def js_eq_iff)
  have env: "(example_env [] [])\<lparr>drive_metadata :=
        \<lambda>request. Inr \<lparr>md_name = js ''pic.png'', md_mimeType = js ''image/png''\<rparr>\<rparr>
      = example_env (js ''pic.png'') (js ''image/png'')"
    by (simp add: example_env_def)
  have sup: "js ''application/pdf'' \<in> fileTypes"
    by (simp add: fileTypes_def)
  show ?thesis
    using dispatch_by_mime_type [where mime = "js ''image/png''" and e = PlainText
        and files = "[example_file ''id1'' ''a.pdf'' ''application/pdf'',
          example_file ''id2'' ''pic.png'' ''image/png'']" and w = empty_world
        and env = "example_env [] []" and n = "js ''pic.png''" and fid = "js ''id2''"] none
      dispatch_by_mime_type [where mime = "js ''text/plain''" and e = PlainText
        and files = "[]" and w = empty_world
        and env = "example_env [] []" and n = "[]" and fid = "[]"] sup
    by (simp add: env example_file_def empty_world_def)
qed

subsection \<open>The requests of the extractors\<close>

text \<open>
  Claim C7. Resumed with the metadata of a native document or of a native
  presentation, \<open>extractText\<close> sends through its extractor an export request whose
  target type is \<open>text/plain\<close>; with the metadata of a native spreadsheet, one whose
  target type is \<open>text/csv\<close>.
\<close>

theorem export_target_type:
  "extractText_metadata
      (env\<lparr>drive_metadata := \<lambda>request. Inr \<lparr>md_name = n,
              md_mimeType = js ''application/vnd.google-apps.document''\<rparr>\<rparr>) fid w
     = (AwaitContent Document n,
        emit (Call (FilesExport \<lparr>p_fileId = fid, p_fields = None, p_alt = None,
                                  p_mimeType = Some (js ''text/plain'')\<rparr> None))
          (console_log (js ''Extracting text from file '' @ n @ js ''...'') w))
   \<and> extractText_metadata
      (env\<lparr>drive_metadata := \<lambda>request. Inr \<lparr>md_name = n,
              md_mimeType = js ''application/vnd.google-apps.presentation''\<rparr>\<rparr>) fid w
     = (AwaitContent Presentation n,
        emit (Call (FilesExport \<lparr>p_fileId = fid, p_fields = None, p_alt = None,
                                  p_mimeType = Some (js ''text/plain'')\<rparr> None))
          (console_log (js ''Extracting text from file '' @ n @ js ''...'') w))
   \<and> extractText_metadata
      (env\<lparr>drive_metadata := \<lambda>request. Inr \<lparr>md_name = n,
              md_mimeType = js ''application/vnd.google-apps.spreadsheet''\<rparr>\<rparr>) fid w
     = (AwaitContent Spreadsheet n,
        emit (Call (FilesExport \<lparr>p_fileId = fid, p_fields = None, p_alt = None,
                                  p_mimeType = Some (js ''text/csv'')\<rparr> None))
          (console_log (js ''Extracting text from file '' @ n @ js ''...'') w))"
  using extractText_metadata_supported [where env = env and n = n and e = Document
      and fid = fid and w = w]
    extractText_metadata_supported [where env = env and n = n and e = Presentation
      and fid = fid and w = w]
    extractText_metadata_supported [where env = env and n = n and e = Spreadsheet
      and fid = fid and w = w]
  by (simp add: extractor_start_def)

text \<open>
  For claim C2: what \<open>extractText\<close> does with the metadata of an OpenXML
  word-processing document. The request that \<open>extractWordDoc\<close> sends is a call of
  \<open>drive.files.export\<close>, with \<open>alt: 'media'\<close> and without a target type, where the
  sibling \<open>extractPDFText\<close> sends a call of \<open>drive.files.get\<close> with \<open>alt: 'media'\<close>.
\<close>

theorem extractWordDoc_sends_export:
  "extractText_metadata
      (env\<lparr>drive_metadata := \<lambda>request. Inr \<lparr>md_name = n,
              md_mimeType =
                js ''application/vnd.openxmlformats-officedocument.wordprocessingml.document''\<rparr>\<rparr>)
      fid w
     = (AwaitContent WordDoc n,
        emit (Call (FilesExport \<lparr>p_fileId = fid, p_fields = None, p_alt = Some (js ''media''),
                                  p_mimeType = None\<rparr> (Some (js ''arraybuffer''))))
          (console_log (js ''Extracting text from file '' @ n @ js ''...'') w))
   \<and> extractText_metadata
      (env\<lparr>drive_metadata := \<lambda>request. Inr \<lparr>md_name = n,
              md_mimeType = js ''application/pdf''\<rparr>\<rparr>) fid w
     = (AwaitContent PDF n,
        emit (Call (FilesGet \<lparr>p_fileId = fid, p_fields = None, p_alt = Some (js ''media''),
                               p_mimeType = None\<rparr> (Some (js ''arraybuffer''))))
          (console_log (js ''Extracting text from file '' @ n @ js ''...'') w))"
  using extractText_metadata_supported [where env = env and n = n and e = WordDoc
      and fid = fid and w = w]
    extractText_metadata_supported [where env = env and n = n and e = PDF
      and fid = fid and w = w]
  by (simp add: extractor_start_def)


subsection \<open>saveFile\<close>

lemma self_in_ancestors: "l \<in> set (ancestors l)"
proof -
  have "(fst l, take (length (snd l)) (snd l)) \<in> set (ancestors l)"
    unfolding ancestors_def by (simp add: image_iff)
  then show ?thesis by simp
qed

lemma saveFile_try_exists:
  "existsSync w d \<Longrightarrow>
     saveFile_try env t n d w =
       (case write_error env (artifact_loc n d) of
          Some e \<Rightarrow> (Some e, w)
        | None \<Rightarrow> (None,
            console_log (check_mark # js '' Saved to ''
                           @ path_join d (path_parse_name n @ js ''-converted.txt''))
              (emit (FsWrite (artifact_loc n d) t)
                 (w\<lparr>fs_files := (fs_files w)(artifact_loc n d \<mapsto> t)\<rparr>))))"
  by (simp add: saveFile_try_def writeFileSync_def artifact_loc_def Let_def
      split: option.splits)

lemma saveFile_try_mkdir_fail:
  "\<not> existsSync w d \<Longrightarrow> mkdir_error env (fs_resolve d) = Some e \<Longrightarrow>
     saveFile_try env t n d w = (Some e, w)"
  by (simp add: saveFile_try_def mkdirSync_def)

lemma saveFile_try_mkdir_ok:
  "\<not> existsSync w d \<Longrightarrow> mkdir_error env (fs_resolve d) = None \<Longrightarrow>
     saveFile_try env t n d w =
       (let w1 = console_log (js ''<<< Created output directory >>>'')
                   (emit (FsMkdir (fs_resolve d))
                      (w\<lparr>fs_dirs := fs_dirs w \<union> set (ancestors (fs_resolve d))\<rparr>))
        in case write_error env (artifact_loc n d) of
          Some e \<Rightarrow> (Some e, w1)
        | None \<Rightarrow> (None,
            console_log (check_mark # js '' Saved to ''
                           @ path_join d (path_parse_name n @ js ''-converted.txt''))
              (emit (FsWrite (artifact_loc n d) t)
                 (w1\<lparr>fs_files := (fs_files w1)(artifact_loc n d \<mapsto> t)\<rparr>))))"
  by (simp add: saveFile_try_def mkdirSync_def writeFileSync_def artifact_loc_def Let_def
      split: option.splits)

lemma fs_simps:
  "fs_dirs (emit ev w) = fs_dirs w" "fs_files (emit ev w) = fs_files w"
  "fs_dirs (console_log s w) = fs_dirs w" "fs_files (console_log s w) = fs_files w"
  "fs_dirs (console_error s w) = fs_dirs w" "fs_files (console_error s w) = fs_files w"
  by (simp_all add: emit_def console_log_def console_error_def)

lemma saveFile_fs:
  "fs_dirs (saveFile env t n d w) =
      (if existsSync w d \<or> mkdir_error env (fs_resolve d) \<noteq> None then fs_dirs w
       else fs_dirs w \<union> set (ancestors (fs_resolve d)))"
  "fs_files (saveFile env t n d w) =
      (if (existsSync w d \<or> mkdir_error env (fs_resolve d) = None)
          \<and> write_error env (artifact_loc n d) = None
       then (fs_files w)(artifact_loc n d \<mapsto> t) else fs_files w)"
proof -
  consider (ex) "existsSync w d"
    | (fail) e where "\<not> existsSync w d" "mkdir_error env (fs_resolve d) = Some e"
    | (ok) "\<not> existsSync w d" "mkdir_error env (fs_resolve d) = None"
    by (cases "mkdir_error env (fs_resolve d)") auto
  then have "fs_dirs (saveFile env t n d w) =
      (if existsSync w d \<or> mkdir_error env (fs_resolve d) \<noteq> None then fs_dirs w
       else fs_dirs w \<union> set (ancestors (fs_resolve d))) \<and> fs_files (saveFile env t n d w) =
      (if (existsSync w d \<or> mkdir_error env (fs_resolve d) = None)
          \<and> write_error env (artifact_loc n d) = None
       then (fs_files w)(artifact_loc n d \<mapsto> t) else fs_files w)"
  proof cases
    case ex
    then show ?thesis
      by (simp add: saveFile_def saveFile_try_exists fs_simps split: option.splits)
  next
    case fail
    then show ?thesis
      by (simp add: saveFile_def saveFile_try_mkdir_fail fs_simps)
  next
    case ok
    then show ?thesis
      by (simp add: saveFile_def saveFile_try_mkdir_ok fs_simps Let_def split: option.splits)
  qed
  then show "fs_dirs (saveFile env t n d w) =
      (if existsSync w d \<or> mkdir_error env (fs_resolve d) \<noteq> None then fs_dirs w
       else fs_dirs w \<union> set (ancestors (fs_resolve d)))"
    "fs_files (saveFile env t n d w) =
      (if (existsSync w d \<or> mkdir_error env (fs_resolve d) = None)
          \<and> write_error env (artifact_loc n d) = None
       then (fs_files w)(artifact_loc n d \<mapsto> t) else fs_files w)"
    by simp_all
qed

lemma existsSync_saveFile:
  "existsSync (saveFile env t n d w) d
     \<longleftrightarrow> existsSync w d \<or> mkdir_error env (fs_resolve d) = None"
  unfolding existsSync_def [of "saveFile env t n d w"] saveFile_fs
  using self_in_ancestors [of "fs_resolve d"]
  by (auto simp: existsSync_def)

lemma saveFile_twice:
  "fs_dirs (saveFile env t n d (saveFile env t n d w)) = fs_dirs (saveFile env t n d w)"
  "fs_files (saveFile env t n d (saveFile env t n d w)) = fs_files (saveFile env t n d w)"
  unfolding saveFile_fs [of env t n d "saveFile env t n d w"] existsSync_saveFile
  by (auto simp: saveFile_fs)

lemma saveFile_try_thrown:
  "existsSync w d \<or> mkdir_error env (fs_resolve d) = None \<Longrightarrow>
     fst (saveFile_try env t n d w) = write_error env (artifact_loc n d)"
  by (cases "existsSync w d")
    (auto simp: saveFile_try_exists saveFile_try_mkdir_ok Let_def split: option.splits)

text \<open>
  Claim C9. Saving is idempotent on the disk: a second call of \<open>saveFile\<close> with the
  same text, file name and directory leaves the directories and the files as the first
  call left them. Where the write is not refused, the file at the output path holds
  exactly the text (whatever it held before) and no other file has changed. A
  directory that exists already is not created again and causes no error; one that is
  missing is created, and exists afterwards, unless the system refuses.
\<close>

theorem saveFile_idempotent:
  "fs_dirs (saveFile env t n d (saveFile env t n d w)) = fs_dirs (saveFile env t n d w)
   \<and> fs_files (saveFile env t n d (saveFile env t n d w)) = fs_files (saveFile env t n d w)
   \<and> (write_error env (artifact_loc n d) = None \<longrightarrow>
        existsSync w d \<or> mkdir_error env (fs_resolve d) = None \<longrightarrow>
        fs_files (saveFile env t n d w) = (fs_files w)(artifact_loc n d \<mapsto> t))
   \<and> (existsSync w d \<longrightarrow>
        fst (saveFile_try env t n d w) = write_error env (artifact_loc n d)
        \<and> fs_dirs (saveFile env t n d w) = fs_dirs w)
   \<and> (\<not> existsSync w d \<longrightarrow> mkdir_error env (fs_resolve d) = None \<longrightarrow>
        fst (saveFile_try env t n d w) = write_error env (artifact_loc n d)
        \<and> existsSync (saveFile env t n d w) d)"
proof (intro conjI impI)
  show "fs_dirs (saveFile env t n d (saveFile env t n d w)) = fs_dirs (saveFile env t n d w)"
    by (rule saveFile_twice)
  show "fs_files (saveFile env t n d (saveFile env t n d w)) = fs_files (saveFile env t n d w)"
    by (rule saveFile_twice)
  show "fs_files (saveFile env t n d w) = (fs_files w)(artifact_loc n d \<mapsto> t)"
    if "write_error env (artifact_loc n d) = None"
      and "existsSync w d \<or> mkdir_error env (fs_resolve d) = None"
    using that by (simp add: saveFile_fs)
  show "fst (saveFile_try env t n d w) = write_error env (artifact_loc n d)"
    if "existsSync w d"
    using that by (simp add: saveFile_try_thrown)
  show "fs_dirs (saveFile env t n d w) = fs_dirs w" if "existsSync w d"
    using that by (simp add: saveFile_fs)
  show "fst (saveFile_try env t n d w) = write_error env (artifact_loc n d)"
    if "\<not> existsSync w d" and "mkdir_error env (fs_resolve d) = None"
    using that by (simp add: saveFile_try_thrown)
  show "existsSync (saveFile env t n d w) d"
    if "\<not> existsSync w d" and "mkdir_error env (fs_resolve d) = None"
    using that by (simp add: existsSync_saveFile)
qed

theorem saveFile_idempotent_witness:
  "\<not> existsSync empty_world (outputDir PlainText)
   \<and> existsSync (saveFile (example_env [] []) (js ''hello'') (js ''notes.txt'')
                   (outputDir PlainText) empty_world) (outputDir PlainText)
   \<and> fs_files (saveFile (example_env [] []) (js ''hello'') (js ''notes.txt'')
                  (outputDir PlainText) empty_world)
       = [artifact_loc (js ''notes.txt'') (outputDir PlainText) \<mapsto> js ''hello'']
   \<and> fs_files (saveFile (example_env [] []) (js ''hello'') (js ''notes.txt'')
                  (outputDir PlainText)
                  (saveFile (example_env [] []) (js ''hello'') (js ''notes.txt'')
                     (outputDir PlainText) empty_world))
       = [artifact_loc (js ''notes.txt'') (outputDir PlainText) \<mapsto> js ''hello'']"
proof -
  have no: "\<not> existsSync empty_world (outputDir PlainText)"
    by (simp add: existsSync_def empty_world_def)
  have ok: "mkdir_error (example_env [] []) l = None" "write_error (example_env [] []) l = None"
    for l
    by (simp_all add: example_env_def)
  have empty: "fs_files empty_world = Map.empty"
    by (simp add: empty_world_def)
  show ?thesis
    using saveFile_idempotent [of "example_env [] []" "js ''hello''" "js ''notes.txt''"
        "outputDir PlainText" empty_world] no ok empty
    by simp
qed


subsection \<open>The path of the artifact\<close>

lemma js_split_no_sep_single: "sep \<notin> set s \<Longrightarrow> js_split sep s = [s]"
  by (induction s) auto

lemma js_split_append:
  "sep \<notin> set ys \<Longrightarrow> js_split sep (xs @ sep # ys) = js_split sep xs @ [ys]"
  by (induction xs) (auto simp: js_split_no_sep_single js_split_not_Nil split: list.splits)

lemma normalizeString_snoc:
  "2 < length f \<Longrightarrow>
     normalizeString a res (segs @ [f]) = normalizeString a res segs @ [f]"
  by (induction segs arbitrary: res) auto

lemma js_join_snoc:
  "xs \<noteq> [] \<Longrightarrow> js_join sep (xs @ [f]) = js_join sep xs @ sep @ f"
  by (induction sep xs rule: js_join.induct) auto

lemma js_join_snoc_not_Nil: "f \<noteq> [] \<Longrightarrow> js_join sep (xs @ [f]) \<noteq> []"
  by (induction sep xs rule: js_join.induct) auto

lemma path_parse_name_no_slash: "slash \<notin> set (path_parse_name n)"
proof -
  have base: "slash \<notin> set (path_basename n)"
    unfolding path_basename_def
    by (auto dest: set_takeWhileD)
  have "set (rev (drop 1 (dropWhile (\<lambda>c. c \<noteq> dot) (rev (path_basename n)))))
      \<subseteq> set (path_basename n)"
    by (auto dest!: in_set_dropD set_dropWhileD)
  with base show ?thesis
    unfolding path_parse_name_def Let_def by auto
qed

lemma resolve_file_in_dir:
  assumes "slash \<notin> set f" and "2 < length f" and "d \<noteq> []" and "hd d \<noteq> slash"
  shows "fs_resolve (d @ slash # f) = (False, normalizeString True [] (js_split slash d) @ [f])"
    and "path_normalize (d @ slash # f)
          = js_join [slash] (normalizeString True [] (js_split slash d) @ [f])"
proof -
  from assms have hd: "hd (d @ slash # f) \<noteq> slash"
    by simp
  from assms have "f \<noteq> []" by auto
  with assms have last: "last (d @ slash # f) \<noteq> slash"
    by (auto simp: last_append dest: last_in_set)
  have segs: "normalizeString True [] (js_split slash (d @ slash # f))
      = normalizeString True [] (js_split slash d) @ [f]"
    using assms by (simp add: js_split_append normalizeString_snoc)
  show "fs_resolve (d @ slash # f) = (False, normalizeString True [] (js_split slash d) @ [f])"
    using hd segs by (simp add: fs_resolve_def)
  have "js_join [slash] (normalizeString True [] (js_split slash d) @ [f]) \<noteq> []"
    using \<open>f \<noteq> []\<close> by (rule js_join_snoc_not_Nil)
  then show "path_normalize (d @ slash # f)
          = js_join [slash] (normalizeString True [] (js_split slash d) @ [f])"
    using hd last segs by (simp add: path_normalize_def Let_def)
qed

lemma outputDir_segments:
  "normalizeString True [] (js_split slash (outputDir e))
     = [js ''saved-outputs'', js (category e)]"
  by (cases e) (simp_all add: js_def slash_def dot_def)

lemma path_join_outputDir:
  assumes "slash \<notin> set f" and "2 < length f"
  shows "path_join (outputDir e) f = js ''saved-outputs/'' @ js (category e) @ [slash] @ f"
proof -
  have d: "outputDir e \<noteq> []" "hd (outputDir e) \<noteq> slash"
    by (cases e; simp add: js_def slash_def)+
  from assms have "f \<noteq> []" by auto
  then have "path_join (outputDir e) f = path_normalize (outputDir e @ slash # f)"
    using d by (simp add: path_join_def)
  also have "\<dots> = js_join [slash] ([js ''saved-outputs'', js (category e)] @ [f])"
    using resolve_file_in_dir(2) [OF assms d] by (simp add: outputDir_segments)
  also have "\<dots> = js ''saved-outputs/'' @ js (category e) @ [slash] @ f"
    by (simp add: js_def slash_def)
  finally show ?thesis .
qed

lemma converted_name:
  "slash \<notin> set (path_parse_name n @ js ''-converted.txt'')"
  "2 < length (path_parse_name n @ js ''-converted.txt'')"
  using path_parse_name_no_slash [of n] by (simp_all add: js_def slash_def)

lemma outputDir_category: "outputDir e = category_dir e"
  by (cases e) (simp_all add: category_dir_def js_def)

lemma resolve_outputDir:
  "fs_resolve (outputDir e) = (False, [js ''saved-outputs'', js (category e)])"
proof -
  have "outputDir e \<noteq> []" "hd (outputDir e) \<noteq> slash"
    by (cases e; simp add: js_def slash_def)+
  then show ?thesis
    by (simp add: fs_resolve_def outputDir_segments)
qed

lemma saved_outputs_segments:
  "normalizeString True [] (js_split slash (js ''saved-outputs/'' @ js (category e)))
     = [js ''saved-outputs'', js (category e)]"
  by (cases e; simp add: js_def slash_def dot_def)

lemma saved_outputs_relative:
  "js ''saved-outputs/'' @ js (category e) \<noteq> []"
  "hd (js ''saved-outputs/'' @ js (category e)) \<noteq> slash"
  by (simp_all add: js_def slash_def)

lemma category_dir_relative:
  "category_dir e \<noteq> []"
  "hd (category_dir e) \<noteq> slash"
  by (simp_all add: category_dir_def js_def slash_def)

lemma artifact_loc_outputDir:
  "artifact_loc n (outputDir e)
     = (False, [js ''saved-outputs'', js (category e),
                path_parse_name n @ js ''-converted.txt''])"
proof -
  have "artifact_loc n (outputDir e)
      = fs_resolve ((js ''saved-outputs/'' @ js (category e)) @ slash
                      # (path_parse_name n @ js ''-converted.txt''))"
    by (simp add: artifact_loc_def path_join_outputDir [OF converted_name])
  also have "\<dots> = (False, [js ''saved-outputs'', js (category e),
                path_parse_name n @ js ''-converted.txt''])"
    using resolve_file_in_dir(1) [OF converted_name [of n] saved_outputs_relative [of e]]
    by (simp add: saved_outputs_segments)
  finally show ?thesis .
qed

lemma resolve_in_category_dir:
  "fs_resolve (category_dir e @ slash # (path_parse_name n @ js ''-converted.txt''))
     = (False, [js ''saved-outputs'', js (category e),
                path_parse_name n @ js ''-converted.txt''])"
  using resolve_file_in_dir(1) [OF converted_name [of n] category_dir_relative [of e]]
    outputDir_segments [of e]
  by (simp add: outputDir_category)

lemma path_basename_plain: "slash \<notin> set p \<Longrightarrow> path_basename p = p"
proof -
  assume no: "slash \<notin> set p"
  then have d: "dropWhile (\<lambda>c. c = slash) (rev p) = rev p"
    by (cases "rev p") (auto simp: rev_eq_Cons_iff)
  have "\<forall>x\<in>set (rev p). x \<noteq> slash"
    using no by auto
  then have t: "takeWhile (\<lambda>c. c \<noteq> slash) (rev p) = rev p"
    by (simp only: takeWhile_eq_all_conv)
  show ?thesis
    unfolding path_basename_def d t by simp
qed

lemma before_last_dot_no_dot: "dot \<notin> set n \<Longrightarrow> before_last_dot n = n"
  by (induction n) auto

lemma stem_before_last_dot:
  "dot \<in> set n \<Longrightarrow>
     rev (drop 1 (dropWhile (\<lambda>c. c \<noteq> dot) (rev n))) = before_last_dot n"
proof (induction n)
  case Nil
  then show ?case by simp
next
  case (Cons c cs)
  show ?case
  proof (cases "dot \<in> set cs")
    case True
    then have "dropWhile (\<lambda>c. c \<noteq> dot) (rev cs) \<noteq> []"
      by (auto simp: dropWhile_eq_Nil_conv)
    then have "drop 1 (dropWhile (\<lambda>c. c \<noteq> dot) (rev cs) @ [c])
        = drop 1 (dropWhile (\<lambda>c. c \<noteq> dot) (rev cs)) @ [c]"
      by (cases "dropWhile (\<lambda>c. c \<noteq> dot) (rev cs)") simp_all
    moreover have "dropWhile (\<lambda>c. c \<noteq> dot) (rev cs @ [c])
        = dropWhile (\<lambda>c. c \<noteq> dot) (rev cs) @ [c]"
      using True by (subst dropWhile_append1 [where x = dot]) auto
    ultimately show ?thesis
      using True Cons.IH by simp
  next
    case False
    with Cons.prems have c: "c = dot"
      by simp
    have "dropWhile (\<lambda>c. c \<noteq> dot) (rev cs @ [dot]) = [dot]"
      using False by (subst dropWhile_append2) auto
    with False c show ?thesis
      by simp
  qed
qed

lemma path_parse_name_plain:
  assumes "slash \<notin> set n" and "n \<noteq> [dot, dot]"
  shows "path_parse_name n = strip_extension n"
proof (cases "dot \<in> set n")
  case True
  with assms show ?thesis
    by (simp add: path_parse_name_def path_basename_plain Let_def stem_before_last_dot
        strip_extension_def del: One_nat_def)
next
  case False
  with assms show ?thesis
    by (simp add: path_parse_name_def path_basename_plain Let_def before_last_dot_no_dot
        strip_extension_def)
qed

lemma artifact_path_resolves:
  assumes "slash \<notin> set n" and "n \<noteq> [dot, dot]"
  shows "fs_resolve (artifact_path e n) = artifact_loc n (outputDir e)"
  using resolve_in_category_dir [of e n] path_parse_name_plain [OF assms]
  by (simp add: artifact_path_def artifact_loc_outputDir)



subsection \<open>One task\<close>

lemmas content_defs = extractPDFText_content_def extractWordDoc_content_def
  extractDocumentText_content_def extractSpreadsheetText_content_def
  extractPresentationText_content_def extractPlainText_content_def

lemma fst_handleArrayBuffer:
  "fst (await_handleArrayBuffer p n (handleArrayBuffer data w))
     = fst (await_handleArrayBuffer p n (handleArrayBuffer data w'))"
  by (simp add: await_handleArrayBuffer_def handleArrayBuffer_def split: option.splits)

lemma resume_pc_control:
  "fst (resume_pc env fid pc w) = fst (resume_pc env fid pc w')"
proof (cases pc)
  case AwaitMetadata
  then show ?thesis
    by (simp add: extractText_metadata_def extractText_catch_def extractor_start_def
        split: sum.splits option.splits js_error.splits)
next
  case (AwaitContent e n)
  then show ?thesis
    using fst_handleArrayBuffer [of _ n _ w w']
    by (cases e) (simp_all add: content_defs Let_def split: sum.splits)
next
  case (AwaitBuffer p n r)
  then show ?thesis by (simp add: extractor_buffer_def split: sum.splits)
next
  case (AwaitParser p n b)
  then show ?thesis by (simp add: extractor_parsed_def split: sum.splits)
next
  case (AwaitExtractor r)
  then show ?thesis
    by (simp add: extractText_return_def extractText_catch_def
        split: sum.splits js_error.splits)
qed simp_all

lemma resume_pc_rank:
  "rank (fst (resume_pc env fid pc w)) \<le> rank pc - 1"
proof (cases pc)
  case AwaitMetadata
  then show ?thesis
    by (simp add: extractText_metadata_def extractText_catch_def extractor_start_def
        split: sum.splits option.splits js_error.splits)
next
  case (AwaitContent e n)
  then show ?thesis
    by (cases e) (simp_all add: content_defs Let_def await_handleArrayBuffer_def handleArrayBuffer_def split: sum.splits option.splits)
next
  case (AwaitBuffer p n r)
  then show ?thesis by (simp add: extractor_buffer_def split: sum.splits)
next
  case (AwaitParser p n b)
  then show ?thesis by (simp add: extractor_parsed_def split: sum.splits)
next
  case (AwaitExtractor r)
  then show ?thesis
    by (simp add: extractText_return_def extractText_catch_def
        split: sum.splits js_error.splits)
qed simp_all

lemma rank_0_settled: "rank pc = 0 \<longleftrightarrow> is_settled pc"
  by (cases pc) simp_all

subsection \<open>What a task leaves to the others\<close>

lemma carries_refl: "carries w w"
  by (simp add: carries_def)

lemma carries_trans: "carries a b \<Longrightarrow> carries b c \<Longrightarrow> carries a c"
  by (simp add: carries_def)

lemma existsSync_emit: "existsSync (emit ev w) d = existsSync w d"
  by (simp add: existsSync_def emit_def)

lemma trace_emit: "trace (emit ev w) = trace w @ [ev]"
  by (simp add: emit_def)

lemma carries_emit: "carries w w' \<Longrightarrow> carries (emit ev w) (emit ev w')"
  by (auto simp: carries_def existsSync_emit trace_emit fs_simps)

lemma carries_emit_right: "carries w w' \<Longrightarrow> carries w (emit ev w')"
  by (auto simp: carries_def existsSync_emit trace_emit fs_simps)

lemma category_inj: "js (category e) = js (category e') \<longleftrightarrow> e = e'"
  by (cases e; cases e'; simp add: js_eq_iff)

lemma outputDir_in_ancestors:
  "fs_resolve (outputDir e') \<in> set (ancestors (fs_resolve (outputDir e))) \<longleftrightarrow> e' = e"
proof -
  have "[0..<Suc (Suc (Suc 0))] = [0, 1, 2]"
    by (simp add: upt_rec)
  then show ?thesis
    by (auto simp: resolve_outputDir ancestors_def category_inj)
qed

lemma existsSync_saveFile_other:
  "existsSync (saveFile env t n (outputDir e) w) (outputDir e')
     \<longleftrightarrow> existsSync w (outputDir e')
         \<or> (e' = e \<and> mkdir_error env (fs_resolve (outputDir e)) = None)"
proof (cases "e' = e")
  case True
  then show ?thesis
    by (auto simp: existsSync_saveFile)
next
  case False
  have "artifact_loc n (outputDir e) \<noteq> fs_resolve (outputDir e')"
    by (simp add: artifact_loc_outputDir resolve_outputDir)
  with False show ?thesis
    unfolding existsSync_def [of "saveFile env t n (outputDir e) w"] saveFile_fs
    by (auto simp: existsSync_def outputDir_in_ancestors)
qed

lemma trace_saveFile_writes:
  "FsWrite l x \<in> set (trace (saveFile env t n d w))
     \<longleftrightarrow> FsWrite l x \<in> set (trace w)
         \<or> ((existsSync w d \<or> mkdir_error env (fs_resolve d) = None)
             \<and> write_error env (artifact_loc n d) = None
             \<and> l = artifact_loc n d \<and> x = t)"
proof -
  consider (ex) "existsSync w d"
    | (fail) e where "\<not> existsSync w d" "mkdir_error env (fs_resolve d) = Some e"
    | (ok) "\<not> existsSync w d" "mkdir_error env (fs_resolve d) = None"
    by (cases "mkdir_error env (fs_resolve d)") auto
  then show ?thesis
  proof cases
    case ex
    then show ?thesis
      by (auto simp: saveFile_def saveFile_try_exists emit_def console_log_def
          console_error_def split: option.splits)
  next
    case fail
    then show ?thesis
      by (auto simp: saveFile_def saveFile_try_mkdir_fail emit_def console_log_def
          console_error_def)
  next
    case ok
    then show ?thesis
      by (auto simp: saveFile_def saveFile_try_mkdir_ok emit_def console_log_def
          console_error_def Let_def split: option.splits)
  qed
qed

lemma files_saveFile:
  "fs_files (saveFile env t n d w) l \<noteq> None
     \<longleftrightarrow> fs_files w l \<noteq> None
         \<or> ((existsSync w d \<or> mkdir_error env (fs_resolve d) = None)
             \<and> write_error env (artifact_loc n d) = None
             \<and> l = artifact_loc n d)"
  by (auto simp: saveFile_fs)

lemma carries_saveFile:
  "carries w w' \<Longrightarrow>
     carries (saveFile env t n (outputDir e) w) (saveFile env t n (outputDir e) w')"
  unfolding carries_def existsSync_saveFile_other trace_saveFile_writes files_saveFile
  by auto

lemma carries_saveFile_right:
  "carries w w' \<Longrightarrow> carries w (saveFile env t n (outputDir e) w')"
  unfolding carries_def existsSync_saveFile_other trace_saveFile_writes files_saveFile
  by auto

lemma snd_handleArrayBuffer:
  "snd (await_handleArrayBuffer p n (handleArrayBuffer data w))
     = (if \<not> instanceof_ArrayBuffer data \<and> arrayBuffer data \<noteq> None
        then emit (Call ArrayBufferCollect) w else w)"
  by (auto simp: await_handleArrayBuffer_def handleArrayBuffer_def split: option.splits)

lemma carries_console:
  "carries w w' \<Longrightarrow> carries (console_log s w) (console_log s w')"
  "carries w w' \<Longrightarrow> carries (console_error s w) (console_error s w')"
  by (simp_all add: console_log_def console_error_def carries_emit)

lemma carries_console_right:
  "carries w w' \<Longrightarrow> carries w (console_log s w')"
  "carries w w' \<Longrightarrow> carries w (console_error s w')"
  by (simp_all add: console_log_def console_error_def carries_emit_right)

lemma carries_content:
  assumes "carries w w'"
  shows "carries (snd (extractor_content e env fid n w)) (snd (extractor_content e env fid n w'))"
proof (cases e)
  case PDF
  with assms show ?thesis
    by (simp add: extractPDFText_content_def snd_handleArrayBuffer carries_emit split: sum.splits)
next
  case Document
  with assms show ?thesis
    by (simp add: extractDocumentText_content_def carries_saveFile carries_console
        split: sum.splits del: outputDir.simps)
next
  case Spreadsheet
  with assms show ?thesis
    by (simp add: extractSpreadsheetText_content_def carries_saveFile Let_def
        split: sum.splits del: outputDir.simps)
next
  case Presentation
  with assms show ?thesis
    by (simp add: extractPresentationText_content_def carries_saveFile
        split: sum.splits del: outputDir.simps)
next
  case WordDoc
  with assms show ?thesis
    by (simp add: extractWordDoc_content_def snd_handleArrayBuffer carries_emit split: sum.splits)
next
  case PlainText
  with assms show ?thesis
    by (simp add: extractPlainText_content_def carries_saveFile
        split: sum.splits del: outputDir.simps)
qed

lemma grows_content:
  assumes "carries w w'"
  shows "carries w (snd (extractor_content e env fid n w'))"
proof (cases e)
  case PDF
  with assms show ?thesis
    by (simp add: extractPDFText_content_def snd_handleArrayBuffer carries_emit_right
        split: sum.splits)
next
  case Document
  with assms show ?thesis
    by (simp add: extractDocumentText_content_def carries_saveFile_right carries_console_right
        split: sum.splits del: outputDir.simps)
next
  case Spreadsheet
  with assms show ?thesis
    by (simp add: extractSpreadsheetText_content_def carries_saveFile_right Let_def
        split: sum.splits del: outputDir.simps)
next
  case Presentation
  with assms show ?thesis
    by (simp add: extractPresentationText_content_def carries_saveFile_right
        split: sum.splits del: outputDir.simps)
next
  case WordDoc
  with assms show ?thesis
    by (simp add: extractWordDoc_content_def snd_handleArrayBuffer carries_emit_right
        split: sum.splits)
next
  case PlainText
  with assms show ?thesis
    by (simp add: extractPlainText_content_def carries_saveFile_right
        split: sum.splits del: outputDir.simps)
qed

lemma parser_outputDir_extractor: "\<exists>e. parser_outputDir p = outputDir e"
  by (cases p) (auto simp del: outputDir.simps)

lemma carries_parsed:
  assumes "carries w w'"
  shows "carries (snd (extractor_parsed env p n b w)) (snd (extractor_parsed env p n b w'))"
proof -
  obtain e where "parser_outputDir p = outputDir e"
    using parser_outputDir_extractor by blast
  with assms show ?thesis
    by (simp add: extractor_parsed_def carries_saveFile split: sum.splits del: outputDir.simps)
qed

lemma grows_parsed:
  assumes "carries w w'"
  shows "carries w (snd (extractor_parsed env p n b w'))"
proof -
  obtain e where "parser_outputDir p = outputDir e"
    using parser_outputDir_extractor by blast
  with assms show ?thesis
    by (simp add: extractor_parsed_def carries_saveFile_right split: sum.splits
        del: outputDir.simps)
qed

lemma resume_pc_carries:
  assumes "carries w w'"
  shows "carries (snd (resume_pc env fid pc w)) (snd (resume_pc env fid pc w'))"
proof (cases pc)
  case AwaitMetadata
  with assms show ?thesis
    by (simp add: extractText_metadata_def extractText_catch_def extractor_start_def
        carries_console carries_emit split: sum.splits option.splits js_error.splits)
next
  case (AwaitContent e n)
  with assms show ?thesis by (simp add: carries_content)
next
  case (AwaitBuffer p n r)
  with assms show ?thesis
    by (simp add: extractor_buffer_def carries_emit split: sum.splits)
next
  case (AwaitParser p n b)
  with assms show ?thesis by (simp add: carries_parsed)
next
  case (AwaitExtractor r)
  with assms show ?thesis
    by (simp add: extractText_return_def extractText_catch_def carries_console
        split: sum.splits js_error.splits)
qed (use assms in simp_all)

lemma resume_pc_grows:
  assumes "carries w w'"
  shows "carries w (snd (resume_pc env fid pc w'))"
proof (cases pc)
  case AwaitMetadata
  with assms show ?thesis
    by (simp add: extractText_metadata_def extractText_catch_def extractor_start_def
        carries_console_right carries_emit_right split: sum.splits option.splits js_error.splits)
next
  case (AwaitContent e n)
  with assms show ?thesis by (simp add: grows_content)
next
  case (AwaitBuffer p n r)
  with assms show ?thesis
    by (simp add: extractor_buffer_def carries_emit_right split: sum.splits)
next
  case (AwaitParser p n b)
  with assms show ?thesis by (simp add: grows_parsed)
next
  case (AwaitExtractor r)
  with assms show ?thesis
    by (simp add: extractText_return_def extractText_catch_def carries_console_right
        split: sum.splits js_error.splits)
qed (use assms in simp_all)

subsection \<open>Tasks under a schedule\<close>

lemma step_control: "fst (step env t w) = fst (step env t w')"
  using resume_pc_control [of env "task_fileId t" "task_pc t" w w']
  by (simp add: step_def split_beta)

lemma step_carries: "carries w w' \<Longrightarrow> carries (snd (step env t w)) (snd (step env t w'))"
  by (simp add: step_def split_beta resume_pc_carries)

lemma step_grows: "carries w w' \<Longrightarrow> carries w (snd (step env t w'))"
  by (simp add: step_def split_beta resume_pc_grows)

lemma step_rank: "rank (task_pc (fst (step env t w))) \<le> rank (task_pc t) - 1"
  using resume_pc_rank [of env "task_fileId t" "task_pc t" w]
  by (simp add: step_def split_beta)

lemma step_settled: "is_settled (task_pc t) \<Longrightarrow> step env t w = (t, w)"
  by (cases "task_pc t") (simp_all add: step_def)

lemma steps_settled: "is_settled (task_pc t) \<Longrightarrow> steps env k t w = (t, w)"
  by (induction k) (simp_all add: step_settled)

lemma steps_add: "steps env (j + k) t w = (case steps env j t w of (t', w') \<Rightarrow> steps env k t' w')"
  by (induction j arbitrary: t w) (simp_all add: split_beta)

lemma steps_rank: "rank (task_pc (fst (steps env k t w))) \<le> rank (task_pc t) - k"
proof (induction k arbitrary: t w)
  case 0
  show ?case by simp
next
  case (Suc k)
  have "rank (task_pc (fst (steps env (Suc k) t w)))
      \<le> rank (task_pc (fst (step env t w))) - k"
    using Suc [of "fst (step env t w)" "snd (step env t w)"] by (simp add: split_beta)
  also have "\<dots> \<le> rank (task_pc t) - 1 - k"
    using step_rank [of env t w] by (rule diff_le_mono)
  finally show ?case by simp
qed

lemma rank_le_6: "rank pc \<le> 6"
  by (cases pc) simp_all

lemma steps_six_settled: "is_settled (task_pc (fst (steps env 6 t w)))"
  using steps_rank [of env 6 t w] rank_le_6 [of "task_pc t"]
  by (simp add: rank_0_settled [symmetric])

lemma steps_beyond_six: "6 \<le> k \<Longrightarrow> steps env k t w = steps env 6 t w"
proof -
  assume "6 \<le> k"
  then obtain m where k: "k = 6 + m"
    using le_Suc_ex by blast
  show ?thesis
    using steps_six_settled [of env t w]
    unfolding k steps_add [of env 6 m]
    by (simp add: split_beta steps_settled)
qed

lemma length_resume: "length (fst (resume env i s)) = length (fst s)"
  by (simp add: resume_def split_beta)

lemma length_run: "length (fst (run env sched s)) = length (fst s)"
  by (induction sched arbitrary: s) (simp_all add: length_resume)

lemma resume_grows: "carries w (snd s) \<Longrightarrow> carries w (snd (resume env i s))"
  by (simp add: resume_def split_beta step_grows)

lemma run_grows: "carries w (snd s) \<Longrightarrow> carries w (snd (run env sched s))"
  by (induction sched arbitrary: s) (simp_all add: resume_grows)

lemma run_simulates:
  assumes "i < length ts" and "carries ws wb"
  shows "fst (run env sched (ts, wb)) ! i = fst (steps env (count_list sched i) (ts ! i) ws)
     \<and> carries (snd (steps env (count_list sched i) (ts ! i) ws)) (snd (run env sched (ts, wb)))"
  using assms
proof (induction sched arbitrary: ts wb ws)
  case Nil
  then show ?case by simp
next
  case (Cons j sched)
  show ?case
  proof (cases "j = i")
    case True
    let ?t = "fst (step env (ts ! i) wb)"
    have res: "resume env i (ts, wb) = (ts[i := ?t], snd (step env (ts ! i) wb))"
      using Cons.prems by (simp add: resume_def split_beta)
    have same: "fst (step env (ts ! i) ws) = ?t"
      by (rule step_control)
    have car: "carries (snd (step env (ts ! i) ws)) (snd (step env (ts ! i) wb))"
      using Cons.prems by (simp add: step_carries)
    have "i < length (ts[i := ?t])"
      using Cons.prems by simp
    from Cons.IH [OF this car] Cons.prems True same show ?thesis
      by (simp add: res split_beta)
  next
    case False
    show ?thesis
    proof (cases "j < length ts")
      case True
      let ?t = "fst (step env (ts ! j) wb)"
      have res: "resume env j (ts, wb) = (ts[j := ?t], snd (step env (ts ! j) wb))"
        using True by (simp add: resume_def split_beta)
      have car: "carries ws (snd (step env (ts ! j) wb))"
        using Cons.prems by (simp add: step_grows)
      have "i < length (ts[j := ?t])"
        using Cons.prems by simp
      from Cons.IH [OF this car] False show ?thesis
        by (simp add: res)
    next
      case no: False
      then have res: "resume env j (ts, wb) = (ts, wb)"
        by (simp add: resume_def)
      from Cons.IH [OF Cons.prems] False show ?thesis
        by (simp add: res)
    qed
  qed
qed

lemma steps_control: "fst (steps env k t w) = fst (steps env k t w')"
proof (induction k arbitrary: t w w')
  case 0
  show ?case by simp
next
  case (Suc k)
  have "fst (steps env (Suc k) t w) = fst (steps env k (fst (step env t w)) (snd (step env t w)))"
    by (simp add: split_beta)
  also have "\<dots> = fst (steps env k (fst (step env t w)) (snd (step env t w')))"
    by (rule Suc)
  also have "\<dots> = fst (steps env k (fst (step env t w')) (snd (step env t w')))"
    by (simp only: step_control [of env t w w'])
  also have "\<dots> = fst (steps env (Suc k) t w')"
    by (simp add: split_beta)
  finally show ?case .
qed

lemma settled_is_final:
  assumes "is_settled (task_pc (fst (steps env k t w)))"
  shows "fst (steps env k t w) = fst (steps env 6 t w)"
proof (cases "6 \<le> k")
  case True
  then show ?thesis
    by (simp only: steps_beyond_six [OF True])
next
  case False
  then have "k + (6 - k) = 6"
    by arith
  then obtain m where m: "k + m = 6"
    by blast
  have "steps env (k + m) t w = steps env m (fst (steps env k t w)) (snd (steps env k t w))"
    by (simp only: steps_add split_beta)
  also have "\<dots> = steps env k t w"
    using assms by (simp add: steps_settled)
  finally have "steps env 6 t w = steps env k t w"
    by (simp only: m)
  then show ?thesis
    by simp
qed

subsection \<open>The batch\<close>

lemma complete_nth: "complete sched n \<Longrightarrow> i < n \<Longrightarrow> 6 \<le> count_list sched i"
  by (simp add: complete_def list_all_iff)

lemma run_settles:
  assumes "complete sched (length ts)"
  shows "list_all (\<lambda>t. is_settled (task_pc t)) (fst (run env sched (ts, w)))"
proof -
  have "is_settled (task_pc (fst (run env sched (ts, w)) ! i))" if "i < length ts" for i
  proof -
    have "fst (run env sched (ts, w)) ! i = fst (steps env (count_list sched i) (ts ! i) w)"
      using run_simulates [OF that carries_refl] by simp
    also have "\<dots> = fst (steps env 6 (ts ! i) w)"
      by (simp only: steps_beyond_six [OF complete_nth [OF assms that]])
    finally show ?thesis
      by (simp add: steps_six_settled)
  qed
  then show ?thesis
    using length_run [of env sched "(ts, w)"] by (simp add: list_all_length)
qed

lemma main_fileIds:
  "map task_fileId (fst (main files w)) = map f_id (filter (\<lambda>f. f_mimeType f \<in> fileTypes) files)"
  by (simp add: main_tasks comp_def)

lemma main_pending: "list_all (\<lambda>t. task_pc t = AwaitMetadata) (fst (main files w))"
  by (simp add: main_tasks list_all_iff)

text \<open>
  Claim C1, as the source has it. When the body of \<open>main\<close> has run to its end, and with
  it the promise of \<open>main\<close> is resolved, one call of \<open>extractText\<close> has been started for
  each supported file of the listing and every one of them rests at its first \<open>await\<close>,
  the metadata request: none has settled. They settle afterwards: under every schedule
  of the event loop that resumes each of them six times, all are settled.
\<close>

theorem main_dispatches_without_waiting:
  "list_all (\<lambda>t. task_pc t = AwaitMetadata) (fst (main files w))
   \<and> map task_fileId (fst (main files w))
       = map f_id (filter (\<lambda>f. f_mimeType f \<in> fileTypes) files)
   \<and> (complete sched (length (fst (main files w))) \<longrightarrow>
        list_all (\<lambda>t. is_settled (task_pc t)) (fst (run env sched (main files w))))"
proof (intro conjI impI)
  show "list_all (\<lambda>t. task_pc t = AwaitMetadata) (fst (main files w))"
    by (rule main_pending)
  show "map task_fileId (fst (main files w))
       = map f_id (filter (\<lambda>f. f_mimeType f \<in> fileTypes) files)"
    by (rule main_fileIds)
  show "list_all (\<lambda>t. is_settled (task_pc t)) (fst (run env sched (main files w)))"
    if "complete sched (length (fst (main files w)))"
    using run_settles [OF that, of env "snd (main files w)"] by simp
qed

theorem main_dispatches_without_waiting_witness:
  "list_all (\<lambda>t. is_settled (task_pc t))
     (fst (run (example_env (js ''a.pdf'') (js ''application/pdf'')) [0, 0, 0, 0, 0, 0]
             (main [example_file ''id1'' ''a.pdf'' ''application/pdf''] empty_world)))"
proof -
  have "complete [0, 0, 0, 0, 0, 0]
          (length (fst (main [example_file ''id1'' ''a.pdf'' ''application/pdf''] empty_world)))"
    by code_simp
  moreover have "complete [0, 0, 0, 0, 0, 0]
          (length (fst (main [example_file ''id1'' ''a.pdf'' ''application/pdf''] empty_world)))
      \<longrightarrow> list_all (\<lambda>t. is_settled (task_pc t))
     (fst (run (example_env (js ''a.pdf'') (js ''application/pdf'')) [0, 0, 0, 0, 0, 0]
             (main [example_file ''id1'' ''a.pdf'' ''application/pdf''] empty_world)))"
    by (rule main_dispatches_without_waiting [where sched = "[0, 0, 0, 0, 0, 0]"
        and files = "[example_file ''id1'' ''a.pdf'' ''application/pdf'']" and w = empty_world
        and env = "example_env (js ''a.pdf'') (js ''application/pdf'')",
        THEN conjunct2, THEN conjunct2])
  ultimately show ?thesis
    by (rule rev_mp)
qed

text \<open>
  The claim as stated, that the promise of \<open>main\<close> resolves only after every dispatched
  call has settled, fails for a listing of one PDF file: at the end of \<open>main\<close> its call
  is pending.
\<close>

theorem main_resolves_first_counterexample:
  "fst (main [example_file ''id1'' ''a.pdf'' ''application/pdf''] empty_world)
     = [\<lparr>task_fileId = js ''id1'', task_pc = AwaitMetadata\<rparr>]
   \<and> \<not> list_all (\<lambda>t. is_settled (task_pc t))
          (fst (main [example_file ''id1'' ''a.pdf'' ''application/pdf''] empty_world))"
  by code_simp

subsection \<open>How the promise of extractText settles\<close>

lemma steps_Suc_task:
  "steps env (Suc k) \<lparr>task_fileId = fid, task_pc = pc\<rparr> w
     = steps env k \<lparr>task_fileId = fid, task_pc = fst (resume_pc env fid pc w)\<rparr>
         (snd (resume_pc env fid pc w))"
  by (simp add: step_def split_beta)

lemma fst_extractText_catch: "fst (extractText_catch err w) = Settled (settled (Inl err))"
  by (cases err) (simp_all add: extractText_catch_def)

lemma fst_extractText_return: "fst (extractText_return r w) = Settled (settled r)"
  by (cases r) (simp_all add: extractText_return_def fst_extractText_catch)

lemma from_extractor:
  "task_pc (fst (steps env (Suc k) \<lparr>task_fileId = fid, task_pc = AwaitExtractor r\<rparr> w))
     = Settled (settled r)"
  unfolding steps_Suc_task by (simp add: fst_extractText_return steps_settled)

lemma fst_extractor_parsed:
  "fst (extractor_parsed env p n b w) = AwaitExtractor (parser_result env p b)"
  by (simp add: extractor_parsed_def split: sum.splits)

lemma from_parser:
  "task_pc (fst (steps env (Suc (Suc k)) \<lparr>task_fileId = fid, task_pc = AwaitParser p n b\<rparr> w))
     = Settled (settled (parser_result env p b))"
  unfolding steps_Suc_task [of env "Suc k"]
  by (simp only: resume_pc.simps fst_extractor_parsed from_extractor)

lemma from_buffer:
  "task_pc (fst (steps env (Suc (Suc (Suc k)))
       \<lparr>task_fileId = fid, task_pc = AwaitBuffer p n r\<rparr> w))
     = Settled (settled (buffered env p r))"
proof (cases r)
  case (Inl err)
  then show ?thesis
    unfolding steps_Suc_task [of env "Suc (Suc k)"]
    by (simp add: extractor_buffer_def from_extractor buffered_def del: steps.simps)
next
  case (Inr buffer)
  then show ?thesis
    unfolding steps_Suc_task [of env "Suc (Suc k)"]
    by (simp add: extractor_buffer_def from_parser buffered_def del: steps.simps)
qed

lemma from_collect:
  "task_pc (fst (steps env (Suc (Suc (Suc (Suc k))))
       \<lparr>task_fileId = fid, task_pc = AwaitCollect p n r\<rparr> w))
     = Settled (settled (buffered env p r))"
  unfolding steps_Suc_task [of env "Suc (Suc (Suc k))"]
  by (simp only: resume_pc.simps fst_conv from_buffer)

lemma handleArrayBuffer_next:
  "fst (await_handleArrayBuffer p n (handleArrayBuffer data w)) = AwaitBuffer p n (normalized data)
   \<or> fst (await_handleArrayBuffer p n (handleArrayBuffer data w))
       = AwaitCollect p n (normalized data)"
  by (cases "instanceof_ArrayBuffer data"; cases "arrayBuffer data")
    (simp_all add: await_handleArrayBuffer_def handleArrayBuffer_def normalized_def)

lemma from_handleArrayBuffer:
  "task_pc (fst (steps env (Suc (Suc (Suc (Suc k))))
       \<lparr>task_fileId = fid,
          task_pc = fst (await_handleArrayBuffer p n (handleArrayBuffer data w'))\<rparr> w))
     = Settled (settled (buffered env p (normalized data)))"
  using handleArrayBuffer_next [of p n data w']
proof
  assume direct: "fst (await_handleArrayBuffer p n (handleArrayBuffer data w'))
        = AwaitBuffer p n (normalized data)"
  show ?thesis
    unfolding direct by (rule from_buffer)
next
  assume collect: "fst (await_handleArrayBuffer p n (handleArrayBuffer data w'))
        = AwaitCollect p n (normalized data)"
  show ?thesis
    unfolding collect by (rule from_collect)
qed

lemma fst_binary_content:
  "fst (extractPDFText_content env fid n w)
     = (case drive_body env (content_request PDF fid) of
          Inl err \<Rightarrow> AwaitExtractor (Inl err)
        | Inr data \<Rightarrow> fst (await_handleArrayBuffer PdfParser n (handleArrayBuffer data w)))"
  "fst (extractWordDoc_content env fid n w)
     = (case drive_body env (content_request WordDoc fid) of
          Inl err \<Rightarrow> AwaitExtractor (Inl err)
        | Inr data \<Rightarrow> fst (await_handleArrayBuffer Mammoth n (handleArrayBuffer data w)))"
  by (simp_all add: extractPDFText_content_def extractWordDoc_content_def split: sum.splits)

lemma fst_text_content:
  "fst (extractDocumentText_content env fid n w)
     = AwaitExtractor (drive_text env (content_request Document fid))"
  "fst (extractSpreadsheetText_content env fid n w)
     = AwaitExtractor (map_sum id formatSpreadsheet (drive_text env (content_request Spreadsheet fid)))"
  "fst (extractPresentationText_content env fid n w)
     = AwaitExtractor (drive_text env (content_request Presentation fid))"
  "fst (extractPlainText_content env fid n w)
     = AwaitExtractor (drive_text env (content_request PlainText fid))"
  by (simp_all add: extractDocumentText_content_def extractSpreadsheetText_content_def
      extractPresentationText_content_def extractPlainText_content_def Let_def
      split: sum.splits)

lemma from_content:
  "task_pc (fst (steps env (Suc (Suc (Suc (Suc (Suc k)))))
       \<lparr>task_fileId = fid, task_pc = AwaitContent e n\<rparr> w))
     = Settled (settled (extracted env e fid))"
proof (cases e)
  case PDF
  show ?thesis
  proof (cases "drive_body env (content_request PDF fid)")
    case (Inl err)
    with PDF show ?thesis
      unfolding steps_Suc_task [of env "Suc (Suc (Suc (Suc k)))"]
      by (simp add: fst_binary_content from_extractor parsed_def del: steps.simps)
  next
    case (Inr data)
    with PDF show ?thesis
      unfolding steps_Suc_task [of env "Suc (Suc (Suc (Suc k)))"]
      by (simp add: fst_binary_content from_handleArrayBuffer parsed_def del: steps.simps)
  qed
next
  case WordDoc
  show ?thesis
  proof (cases "drive_body env (content_request WordDoc fid)")
    case (Inl err)
    with WordDoc show ?thesis
      unfolding steps_Suc_task [of env "Suc (Suc (Suc (Suc k)))"]
      by (simp add: fst_binary_content from_extractor parsed_def del: steps.simps)
  next
    case (Inr data)
    with WordDoc show ?thesis
      unfolding steps_Suc_task [of env "Suc (Suc (Suc (Suc k)))"]
      by (simp add: fst_binary_content from_handleArrayBuffer parsed_def del: steps.simps)
  qed
next
  case Document
  then show ?thesis
    unfolding steps_Suc_task [of env "Suc (Suc (Suc (Suc k)))"]
    by (simp add: fst_text_content from_extractor del: steps.simps)
next
  case Spreadsheet
  then show ?thesis
    unfolding steps_Suc_task [of env "Suc (Suc (Suc (Suc k)))"]
    by (simp add: fst_text_content from_extractor del: steps.simps)
next
  case Presentation
  then show ?thesis
    unfolding steps_Suc_task [of env "Suc (Suc (Suc (Suc k)))"]
    by (simp add: fst_text_content from_extractor del: steps.simps)
next
  case PlainText
  then show ?thesis
    unfolding steps_Suc_task [of env "Suc (Suc (Suc (Suc k)))"]
    by (simp add: fst_text_content from_extractor del: steps.simps)
qed

lemma from_metadata:
  "task_pc (fst (steps env (Suc (Suc (Suc (Suc (Suc (Suc k))))))
       \<lparr>task_fileId = fid, task_pc = AwaitMetadata\<rparr> w))
     = Settled (settled (attempt env fid))"
proof (cases "drive_metadata env (metadata_request fid)")
  case (Inl err)
  then show ?thesis
    unfolding steps_Suc_task [of env "Suc (Suc (Suc (Suc (Suc k))))"]
    by (simp add: extractText_metadata_def fst_extractText_catch steps_settled attempt_def
        del: steps.simps)
next
  case (Inr md)
  show ?thesis
  proof (cases "extractor_for (md_mimeType md)")
    case None
    with Inr show ?thesis
      unfolding steps_Suc_task [of env "Suc (Suc (Suc (Suc (Suc k))))"]
      by (simp add: extractText_metadata_def fst_extractText_catch steps_settled attempt_def
          del: steps.simps)
  next
    case (Some e)
    with Inr show ?thesis
      unfolding steps_Suc_task [of env "Suc (Suc (Suc (Suc (Suc k))))"]
      by (simp add: extractText_metadata_def extractor_start_def from_content attempt_def
          del: steps.simps)
  qed
qed

lemma six_steps_attempt:
  "task_pc (fst (steps env 6 \<lparr>task_fileId = fid, task_pc = AwaitMetadata\<rparr> w))
     = Settled (settled (attempt env fid))"
proof -
  have six: "(6::nat) = Suc (Suc (Suc (Suc (Suc (Suc 0)))))"
    by simp
  show ?thesis
    unfolding six by (rule from_metadata)
qed

lemma extracted_disk:
  "extracted (env\<lparr>mkdir_error := me, write_error := we\<rparr>) e fid = extracted env e fid"
  by (cases e) (simp_all add: parsed_def buffered_def split: sum.splits parser.splits)

lemma attempt_disk:
  "attempt (env\<lparr>mkdir_error := me, write_error := we\<rparr>) fid = attempt env fid"
  by (simp add: attempt_def extracted_disk split: sum.splits option.splits)

lemma rejected_settled: "is_rejected (Settled (settled r)) \<longleftrightarrow> nullish r"
proof (cases r)
  case (Inl err)
  then show ?thesis by (cases err) simp_all
next
  case (Inr result)
  then show ?thesis by simp
qed

lemma is_rejected_settled: "is_rejected pc \<Longrightarrow> is_settled pc"
  by (cases pc) simp_all

lemma steps_not_rejected:
  assumes "\<not> nullish (attempt env fid)"
  shows "\<not> is_rejected (task_pc (fst (steps env k \<lparr>task_fileId = fid, task_pc = AwaitMetadata\<rparr> w)))"
proof
  let ?t = "\<lparr>task_fileId = fid, task_pc = AwaitMetadata\<rparr>"
  assume rejected: "is_rejected (task_pc (fst (steps env k ?t w)))"
  then have "fst (steps env k ?t w) = fst (steps env 6 ?t w)"
    by (intro settled_is_final is_rejected_settled)
  with rejected have "is_rejected (Settled (settled (attempt env fid)))"
    by (simp only: six_steps_attempt)
  with assms show False
    by (simp only: rejected_settled)
qed

text \<open>
  Claim C10, as the source has it. After six resumptions the promise of \<open>extractText\<close>
  is settled, and the answers of the collaborators decide how. It is resolved with the
  extracted text when nothing is thrown in the \<open>try\<close> block. It is resolved with
  \<open>undefined\<close> when the metadata request, the content request, the normalization of the
  body or the parser fails with a value that has a message, or the type is not
  supported. It is rejected, with the \<open>TypeError\<close> of reading \<open>message\<close>, exactly when
  the value caught is \<open>undefined\<close> or \<open>null\<close>; where that is not the case the promise
  is not rejected at any moment. An error of the disk changes nothing of this:
  \<open>saveFile\<close> catches it and the extractor returns its text.
\<close>

theorem extractText_settles:
  "task_pc (fst (steps env 6 (fst (extractText fid w)) w')) = Settled (settled (attempt env fid))
   \<and> (is_rejected (task_pc (fst (steps env 6 (fst (extractText fid w)) w')))
        \<longleftrightarrow> nullish (attempt env fid))
   \<and> (\<not> nullish (attempt env fid) \<longrightarrow>
        \<not> is_rejected (task_pc (fst (steps env k (fst (extractText fid w)) w'))))
   \<and> attempt (env\<lparr>mkdir_error := me, write_error := we\<rparr>) fid = attempt env fid"
proof (intro conjI impI)
  have start: "fst (extractText fid w) = \<lparr>task_fileId = fid, task_pc = AwaitMetadata\<rparr>"
    by (simp add: extractText_def)
  show six: "task_pc (fst (steps env 6 (fst (extractText fid w)) w'))
      = Settled (settled (attempt env fid))"
    unfolding start by (rule six_steps_attempt)
  show "is_rejected (task_pc (fst (steps env 6 (fst (extractText fid w)) w')))
      \<longleftrightarrow> nullish (attempt env fid)"
    unfolding six by (rule rejected_settled)
  show "\<not> is_rejected (task_pc (fst (steps env k (fst (extractText fid w)) w')))"
    if "\<not> nullish (attempt env fid)"
    unfolding start using that by (rule steps_not_rejected)
  show "attempt (env\<lparr>mkdir_error := me, write_error := we\<rparr>) fid = attempt env fid"
    by (rule attempt_disk)
qed

theorem extractText_settles_witness:
  "\<not> nullish (attempt mixed_env (js ''bad''))
   \<and> \<not> is_rejected (task_pc (fst (steps mixed_env 3
            (fst (extractText (js ''bad'') empty_world)) empty_world)))"
proof -
  have caught: "\<not> nullish (attempt mixed_env (js ''bad''))"
    by code_simp
  have "\<not> is_rejected (task_pc (fst (steps mixed_env 3
            (fst (extractText (js ''bad'') empty_world)) empty_world)))"
    by (rule extractText_settles [THEN conjunct2, THEN conjunct2, THEN conjunct1, THEN mp,
          OF caught])
  with caught show ?thesis
    by (rule conjI)
qed

text \<open>
  The claim as stated, that an error raised while writing makes \<open>extractText\<close> resolve
  with \<open>undefined\<close>, fails on a disk that refuses the write of a plain-text file: the
  error is printed by \<open>saveFile\<close>, no file is written, and \<open>extractText\<close> resolves with
  the text.
\<close>

theorem write_failure_counterexample:
  "map task_pc (fst (run readonly_env [0, 0, 0]
        (main [example_file ''id1'' ''notes.txt'' ''text/plain''] empty_world)))
     = [Settled (Inr (Some (js ''hello'')))]
   \<and> ConsoleError (cross_mark # js '' Error saving file: '' @ js ''EACCES'')
        \<in> set (trace (snd (run readonly_env [0, 0, 0]
              (main [example_file ''id1'' ''notes.txt'' ''text/plain''] empty_world))))
   \<and> fs_files (snd (run readonly_env [0, 0, 0]
              (main [example_file ''id1'' ''notes.txt'' ''text/plain''] empty_world)))
        (fs_resolve (js ''./saved-outputs/plain-text/notes-converted.txt'')) = None"
  by code_simp

subsection \<open>Where a successful extraction leaves its artifact\<close>

lemma saveFile_writes:
  assumes "mkdir_error env (fs_resolve d) = None" and "write_error env (artifact_loc n d) = None"
  shows "FsWrite (artifact_loc n d) x \<in> set (trace (saveFile env x n d w))"
    and "fs_files (saveFile env x n d w) (artifact_loc n d) = Some x"
  using assms by (simp_all add: trace_saveFile_writes saveFile_fs)

lemma world_from_extractor:
  "snd (steps env (Suc k) \<lparr>task_fileId = fid, task_pc = AwaitExtractor (Inr x)\<rparr> w) = w"
  unfolding steps_Suc_task by (simp add: extractText_return_def steps_settled)

lemma world_from_parser:
  assumes "parser_result env p b = Inr x"
  shows "snd (steps env (Suc (Suc k)) \<lparr>task_fileId = fid, task_pc = AwaitParser p n b\<rparr> w)
     = saveFile env x n (parser_outputDir p) w"
  unfolding steps_Suc_task [of env "Suc k"] using assms
  by (simp add: extractor_parsed_def world_from_extractor del: steps.simps)

lemma world_from_buffer:
  assumes "buffered env p r = Inr x"
  shows "\<exists>w1. snd (steps env (Suc (Suc (Suc k))) \<lparr>task_fileId = fid, task_pc = AwaitBuffer p n r\<rparr> w)
     = saveFile env x n (parser_outputDir p) w1"
proof (cases r)
  case (Inl err)
  with assms show ?thesis
    by (simp add: buffered_def)
next
  case (Inr buffer)
  with assms have "parser_result env p buffer = Inr x"
    by (simp add: buffered_def)
  with Inr have "snd (steps env (Suc (Suc (Suc k)))
        \<lparr>task_fileId = fid, task_pc = AwaitBuffer p n r\<rparr> w)
      = saveFile env x n (parser_outputDir p) (emit (Call (parser_call p buffer)) w)"
    unfolding steps_Suc_task [of env "Suc (Suc k)"]
    by (simp add: extractor_buffer_def world_from_parser del: steps.simps)
  then show ?thesis
    by blast
qed

lemma world_from_collect:
  assumes "buffered env p r = Inr x"
  shows "\<exists>w1. snd (steps env (Suc (Suc (Suc (Suc k))))
         \<lparr>task_fileId = fid, task_pc = AwaitCollect p n r\<rparr> w)
     = saveFile env x n (parser_outputDir p) w1"
  unfolding steps_Suc_task [of env "Suc (Suc (Suc k))"]
  using world_from_buffer [OF assms] by (simp only: resume_pc.simps fst_conv snd_conv)

lemma world_from_handleArrayBuffer:
  assumes "buffered env p (normalized data) = Inr x"
  shows "\<exists>w1. snd (steps env (Suc (Suc (Suc (Suc k))))
         \<lparr>task_fileId = fid,
            task_pc = fst (await_handleArrayBuffer p n (handleArrayBuffer data w'))\<rparr> w)
     = saveFile env x n (parser_outputDir p) w1"
  using handleArrayBuffer_next [of p n data w']
proof
  assume direct: "fst (await_handleArrayBuffer p n (handleArrayBuffer data w'))
        = AwaitBuffer p n (normalized data)"
  show ?thesis
    unfolding direct using assms by (rule world_from_buffer)
next
  assume collect: "fst (await_handleArrayBuffer p n (handleArrayBuffer data w'))
        = AwaitCollect p n (normalized data)"
  show ?thesis
    unfolding collect using assms by (rule world_from_collect)
qed

lemma world_from_binary:
  assumes "parsed env p (drive_body env request) = Inr x"
    and "c = (case drive_body env request of
                Inl err \<Rightarrow> (AwaitExtractor (Inl err), w)
              | Inr data \<Rightarrow> await_handleArrayBuffer p n (handleArrayBuffer data w))"
  shows "\<exists>w1. snd (steps env (Suc (Suc (Suc (Suc k))))
         \<lparr>task_fileId = fid, task_pc = fst c\<rparr> (snd c))
     = saveFile env x n (parser_outputDir p) w1"
proof (cases "drive_body env request")
  case (Inl err)
  with assms show ?thesis
    by (simp add: parsed_def)
next
  case (Inr data)
  with assms have "buffered env p (normalized data) = Inr x"
    by (simp add: parsed_def)
  from world_from_handleArrayBuffer [OF this, of k fid n w "snd c"] Inr assms(2) show ?thesis
    by (simp del: steps.simps)
qed

lemma world_from_text:
  assumes "c = (AwaitExtractor (Inr x), saveFile env x n d w)"
  shows "\<exists>w1. snd (steps env (Suc (Suc (Suc (Suc k))))
         \<lparr>task_fileId = fid, task_pc = fst c\<rparr> (snd c))
     = saveFile env x n d w1"
proof -
  have "snd (steps env (Suc (Suc (Suc (Suc k)))) \<lparr>task_fileId = fid, task_pc = fst c\<rparr> (snd c))
      = saveFile env x n d w"
    unfolding assms fst_conv snd_conv by (rule world_from_extractor)
  then show ?thesis
    by blast
qed

lemma world_from_content:
  assumes "extracted env e fid = Inr x"
  shows "\<exists>w1. snd (steps env (Suc (Suc (Suc (Suc (Suc k)))))
         \<lparr>task_fileId = fid, task_pc = AwaitContent e n\<rparr> w)
     = saveFile env x n (outputDir e) w1"
  unfolding steps_Suc_task [of env "Suc (Suc (Suc (Suc k)))"] resume_pc.simps
proof (cases e)
  case PDF
  with assms have "parsed env PdfParser (drive_body env (content_request PDF fid)) = Inr x"
    by simp
  then show "\<exists>w1. snd (steps env (Suc (Suc (Suc (Suc k))))
         \<lparr>task_fileId = fid, task_pc = fst (extractor_content e env fid n w)\<rparr>
         (snd (extractor_content e env fid n w)))
     = saveFile env x n (outputDir e) w1"
    unfolding PDF parser_outputDir.simps(1) [symmetric] extractor_content.simps
    by (rule world_from_binary) (simp only: extractPDFText_content_def)
next
  case WordDoc
  with assms have "parsed env Mammoth (drive_body env (content_request WordDoc fid)) = Inr x"
    by simp
  then show "\<exists>w1. snd (steps env (Suc (Suc (Suc (Suc k))))
         \<lparr>task_fileId = fid, task_pc = fst (extractor_content e env fid n w)\<rparr>
         (snd (extractor_content e env fid n w)))
     = saveFile env x n (outputDir e) w1"
    unfolding WordDoc parser_outputDir.simps(2) [symmetric] extractor_content.simps
    by (rule world_from_binary) (simp only: extractWordDoc_content_def)
next
  case Document
  with assms have "drive_text env (content_request Document fid) = Inr x"
    by simp
  then show "\<exists>w1. snd (steps env (Suc (Suc (Suc (Suc k))))
         \<lparr>task_fileId = fid, task_pc = fst (extractor_content e env fid n w)\<rparr>
         (snd (extractor_content e env fid n w)))
     = saveFile env x n (outputDir e) w1"
    unfolding Document extractor_content.simps
    by (intro world_from_text) (simp add: extractDocumentText_content_def del: outputDir.simps)
next
  case Spreadsheet
  with assms obtain csv where "drive_text env (content_request Spreadsheet fid) = Inr csv"
    and "x = formatSpreadsheet csv"
    by (cases "drive_text env (content_request Spreadsheet fid)") auto
  then show "\<exists>w1. snd (steps env (Suc (Suc (Suc (Suc k))))
         \<lparr>task_fileId = fid, task_pc = fst (extractor_content e env fid n w)\<rparr>
         (snd (extractor_content e env fid n w)))
     = saveFile env x n (outputDir e) w1"
    unfolding Spreadsheet extractor_content.simps
    by (intro world_from_text)
      (simp add: extractSpreadsheetText_content_def Let_def del: outputDir.simps)
next
  case Presentation
  with assms have "drive_text env (content_request Presentation fid) = Inr x"
    by simp
  then show "\<exists>w1. snd (steps env (Suc (Suc (Suc (Suc k))))
         \<lparr>task_fileId = fid, task_pc = fst (extractor_content e env fid n w)\<rparr>
         (snd (extractor_content e env fid n w)))
     = saveFile env x n (outputDir e) w1"
    unfolding Presentation extractor_content.simps
    by (intro world_from_text) (simp add: extractPresentationText_content_def del: outputDir.simps)
next
  case PlainText
  with assms have "drive_text env (content_request PlainText fid) = Inr x"
    by simp
  then show "\<exists>w1. snd (steps env (Suc (Suc (Suc (Suc k))))
         \<lparr>task_fileId = fid, task_pc = fst (extractor_content e env fid n w)\<rparr>
         (snd (extractor_content e env fid n w)))
     = saveFile env x n (outputDir e) w1"
    unfolding PlainText extractor_content.simps
    by (intro world_from_text) (simp add: extractPlainText_content_def del: outputDir.simps)
qed

lemma world_from_metadata:
  assumes "drive_metadata env (metadata_request fid) = Inr md"
    and "extractor_for (md_mimeType md) = Some e"
    and "extracted env e fid = Inr x"
  shows "\<exists>w1. snd (steps env 6 \<lparr>task_fileId = fid, task_pc = AwaitMetadata\<rparr> w)
     = saveFile env x (md_name md) (outputDir e) w1"
proof -
  have six: "(6::nat) = Suc (Suc (Suc (Suc (Suc (Suc 0)))))"
    by simp
  show ?thesis
    unfolding six steps_Suc_task [of env "Suc (Suc (Suc (Suc (Suc 0))))"]
    using assms(1,2) world_from_content [OF assms(3), of 0 "md_name md"]
    by (simp add: extractText_metadata_def extractor_start_def del: steps.simps outputDir.simps)
qed

lemma task_writes_artifact:
  assumes "drive_metadata env (metadata_request fid) = Inr md"
    and "extractor_for (md_mimeType md) = Some e"
    and "extracted env e fid = Inr x"
    and "mkdir_error env (fs_resolve (outputDir e)) = None"
    and "write_error env (artifact_loc (md_name md) (outputDir e)) = None"
  shows "FsWrite (artifact_loc (md_name md) (outputDir e)) x
      \<in> set (trace (snd (steps env 6 \<lparr>task_fileId = fid, task_pc = AwaitMetadata\<rparr> w)))"
    and "fs_files (snd (steps env 6 \<lparr>task_fileId = fid, task_pc = AwaitMetadata\<rparr> w))
      (artifact_loc (md_name md) (outputDir e)) = Some x"
proof -
  from world_from_metadata [OF assms(1-3)]
  obtain w1 where w1: "snd (steps env 6 \<lparr>task_fileId = fid, task_pc = AwaitMetadata\<rparr> w)
      = saveFile env x (md_name md) (outputDir e) w1"
    by blast
  show "FsWrite (artifact_loc (md_name md) (outputDir e)) x
      \<in> set (trace (snd (steps env 6 \<lparr>task_fileId = fid, task_pc = AwaitMetadata\<rparr> w)))"
    unfolding w1 using assms(4,5) by (rule saveFile_writes)
  show "fs_files (snd (steps env 6 \<lparr>task_fileId = fid, task_pc = AwaitMetadata\<rparr> w))
      (artifact_loc (md_name md) (outputDir e)) = Some x"
    unfolding w1 using assms(4,5) by (rule saveFile_writes)
qed







subsection \<open>Failures and the batch\<close>

lemma main_fs:
  "fs_dirs (snd (main files w)) = fs_dirs w \<and> fs_files (snd (main files w)) = fs_files w"
proof (cases files)
  case Nil
  then show ?thesis by (simp add: main_def fs_simps)
next
  case (Cons f fs)
  then have "main files w = forEach_file files w"
    by (simp add: main_def)
  then show ?thesis
    by (simp only: forEach_file_fs)
qed

lemma carries_write:
  "carries w w' \<Longrightarrow> FsWrite l t \<in> set (trace w) \<Longrightarrow> FsWrite l t \<in> set (trace w')"
  unfolding carries_def by blast

lemma carries_file:
  "carries w w' \<Longrightarrow> fs_files w l \<noteq> None \<Longrightarrow> fs_files w' l \<noteq> None"
  unfolding carries_def by blast

lemma pending_task:
  "task_pc t = AwaitMetadata \<Longrightarrow> t = \<lparr>task_fileId = task_fileId t, task_pc = AwaitMetadata\<rparr>"
  by (cases t) simp

lemma batch_simulates:
  assumes "i < length (fst (main files w))"
  shows "fst (run env sched (main files w)) ! i
       = fst (steps env (count_list sched i)
           \<lparr>task_fileId = task_fileId (fst (main files w) ! i), task_pc = AwaitMetadata\<rparr>
           (snd (main files w)))"
    and "carries (snd (steps env (count_list sched i)
           \<lparr>task_fileId = task_fileId (fst (main files w) ! i), task_pc = AwaitMetadata\<rparr>
           (snd (main files w))))
         (snd (run env sched (main files w)))"
proof -
  let ?ts = "fst (main files w)"
  let ?wb = "snd (main files w)"
  have "task_pc (?ts ! i) = AwaitMetadata"
    using main_pending [of files w] assms by (simp add: list_all_length)
  then have t: "\<lparr>task_fileId = task_fileId (?ts ! i), task_pc = AwaitMetadata\<rparr> = ?ts ! i"
    by (rule pending_task [symmetric])
  have pair: "(?ts, ?wb) = main files w"
    by simp
  from run_simulates [OF assms carries_refl, of env sched ?wb]
  show "fst (run env sched (main files w)) ! i
       = fst (steps env (count_list sched i)
           \<lparr>task_fileId = task_fileId (?ts ! i), task_pc = AwaitMetadata\<rparr> ?wb)"
    and "carries (snd (steps env (count_list sched i)
           \<lparr>task_fileId = task_fileId (?ts ! i), task_pc = AwaitMetadata\<rparr> ?wb))
         (snd (run env sched (main files w)))"
    unfolding t pair by (rule conjunct1, rule conjunct2)
qed

lemma nullish_map_sum: "nullish (map_sum id f r) = nullish r"
proof (cases r)
  case (Inl err)
  then show ?thesis by (cases err) simp_all
next
  case (Inr v)
  then show ?thesis by simp
qed

lemma messages_only_extracted: "messages_only env \<Longrightarrow> \<not> nullish (extracted env e fid)"
  by (cases e) (simp_all add: messages_only_def nullish_map_sum)

lemma messages_only_attempt:
  assumes "messages_only env"
  shows "\<not> nullish (attempt env fid)"
proof (cases "drive_metadata env (metadata_request fid)")
  case (Inl err)
  with assms have "\<not> nullish (Inl err :: js_error + metadata)"
    unfolding messages_only_def by metis
  then have "\<not> nullish (Inl err :: js_error + jsstring)"
    by (cases err) simp_all
  with Inl show ?thesis
    by (simp add: attempt_def)
next
  case (Inr md)
  then show ?thesis
    using messages_only_extracted [OF assms]
    by (simp add: attempt_def split: option.splits)
qed

lemma batch_not_rejected:
  assumes "messages_only env"
  shows "list_all (\<lambda>t. \<not> is_rejected (task_pc t)) (fst (run env sched (main files w)))"
proof -
  have "\<not> is_rejected (task_pc (fst (run env sched (main files w)) ! i))"
    if "i < length (fst (main files w))" for i
    unfolding batch_simulates(1) [OF that]
    by (rule steps_not_rejected) (rule messages_only_attempt [OF assms])
  then show ?thesis
    using length_run [of env sched "main files w"] by (simp add: list_all_length)
qed

lemma batch_outcomes:
  assumes "complete sched (length (fst (main files w)))"
  shows "map task_pc (fst (run env sched (main files w)))
     = map (\<lambda>f. Settled (settled (attempt env (f_id f))))
         (filter (\<lambda>f. f_mimeType f \<in> fileTypes) files)"
proof (rule nth_equalityI)
  show len: "length (map task_pc (fst (run env sched (main files w))))
      = length (map (\<lambda>f. Settled (settled (attempt env (f_id f))))
         (filter (\<lambda>f. f_mimeType f \<in> fileTypes) files))"
    by (simp add: length_run main_tasks)
  fix i
  assume "i < length (map task_pc (fst (run env sched (main files w))))"
  then have i: "i < length (fst (main files w))"
    by (simp add: length_run)
  then have i': "i < length (filter (\<lambda>f. f_mimeType f \<in> fileTypes) files)"
    by (simp add: main_tasks)
  have fid: "task_fileId (fst (main files w) ! i)
      = f_id (filter (\<lambda>f. f_mimeType f \<in> fileTypes) files ! i)"
    using i' by (simp add: main_tasks)
  have "task_pc (fst (run env sched (main files w)) ! i)
      = task_pc (fst (steps env 6
           \<lparr>task_fileId = task_fileId (fst (main files w) ! i), task_pc = AwaitMetadata\<rparr>
           (snd (main files w))))"
    unfolding batch_simulates(1) [OF i]
    by (simp only: steps_beyond_six [OF complete_nth [OF assms i]])
  also have "\<dots> = Settled (settled (attempt env (task_fileId (fst (main files w) ! i))))"
    by (rule six_steps_attempt)
  finally show "map task_pc (fst (run env sched (main files w))) ! i
      = map (\<lambda>f. Settled (settled (attempt env (f_id f))))
         (filter (\<lambda>f. f_mimeType f \<in> fileTypes) files) ! i"
    using i i' by (simp add: length_run fid)
qed

lemma batch_writes_artifact:
  assumes f: "f \<in> set files" "f_mimeType f \<in> fileTypes"
    and sched: "complete sched (length (fst (main files w)))"
    and md: "drive_metadata env (metadata_request (f_id f)) = Inr md"
    and e: "extractor_for (md_mimeType md) = Some e"
    and x: "extracted env e (f_id f) = Inr x"
    and dir_ok: "mkdir_error env (fs_resolve (outputDir e)) = None"
    and file_ok: "write_error env (artifact_loc (md_name md) (outputDir e)) = None"
  shows "FsWrite (artifact_loc (md_name md) (outputDir e)) x
           \<in> set (trace (snd (run env sched (main files w))))"
    and "fs_files (snd (run env sched (main files w))) (artifact_loc (md_name md) (outputDir e))
           \<noteq> None"
proof -
  let ?ts = "fst (main files w)"
  from f have "\<lparr>task_fileId = f_id f, task_pc = AwaitMetadata\<rparr> \<in> set ?ts"
    unfolding main_tasks by (simp add: image_iff) blast
  then obtain i where i: "i < length ?ts" "?ts ! i = \<lparr>task_fileId = f_id f, task_pc = AwaitMetadata\<rparr>"
    unfolding in_set_conv_nth by blast
  from i(2) have fid: "task_fileId (?ts ! i) = f_id f"
    by simp
  have car: "carries (snd (steps env 6 \<lparr>task_fileId = f_id f, task_pc = AwaitMetadata\<rparr>
          (snd (main files w))))
        (snd (run env sched (main files w)))"
    using batch_simulates(2) [OF i(1), of env sched]
    unfolding fid by (simp only: steps_beyond_six [OF complete_nth [OF sched i(1)]])
  show "FsWrite (artifact_loc (md_name md) (outputDir e)) x
           \<in> set (trace (snd (run env sched (main files w))))"
    using car task_writes_artifact(1) [OF md e x dir_ok file_ok] by (rule carries_write)
  have "fs_files (snd (steps env 6 \<lparr>task_fileId = f_id f, task_pc = AwaitMetadata\<rparr>
          (snd (main files w)))) (artifact_loc (md_name md) (outputDir e)) \<noteq> None"
    by (simp only: task_writes_artifact(2) [OF md e x dir_ok file_ok]) simp
  with car show "fs_files (snd (run env sched (main files w)))
      (artifact_loc (md_name md) (outputDir e)) \<noteq> None"
    by (rule carries_file)
qed

lemma logged_from_extractor:
  "snd (steps env (Suc k) \<lparr>task_fileId = fid, task_pc = AwaitExtractor (Inl (Error m))\<rparr> w)
     = console_error (js ''Error extracting text from file: '' @ m) w"
  unfolding steps_Suc_task
  by (simp add: extractText_return_def extractText_catch_def steps_settled)

lemma logged_from_parser:
  assumes "parser_result env p b = Inl (Error m)"
  shows "snd (steps env (Suc (Suc k)) \<lparr>task_fileId = fid, task_pc = AwaitParser p n b\<rparr> w)
     = console_error (js ''Error extracting text from file: '' @ m) w"
  unfolding steps_Suc_task [of env "Suc k"] using assms
  by (simp add: extractor_parsed_def logged_from_extractor del: steps.simps)

lemma logged_from_buffer:
  assumes "buffered env p r = Inl (Error m)"
  shows "\<exists>w1. snd (steps env (Suc (Suc (Suc k)))
         \<lparr>task_fileId = fid, task_pc = AwaitBuffer p n r\<rparr> w)
     = console_error (js ''Error extracting text from file: '' @ m) w1"
proof (cases r)
  case (Inl err)
  with assms have "snd (steps env (Suc (Suc (Suc k)))
        \<lparr>task_fileId = fid, task_pc = AwaitBuffer p n r\<rparr> w)
      = console_error (js ''Error extracting text from file: '' @ m) w"
    unfolding steps_Suc_task [of env "Suc (Suc k)"]
    by (simp add: buffered_def extractor_buffer_def logged_from_extractor del: steps.simps)
  then show ?thesis
    by blast
next
  case (Inr buffer)
  with assms have "parser_result env p buffer = Inl (Error m)"
    by (simp add: buffered_def)
  with Inr have "snd (steps env (Suc (Suc (Suc k)))
        \<lparr>task_fileId = fid, task_pc = AwaitBuffer p n r\<rparr> w)
      = console_error (js ''Error extracting text from file: '' @ m)
          (emit (Call (parser_call p buffer)) w)"
    unfolding steps_Suc_task [of env "Suc (Suc k)"]
    by (simp add: extractor_buffer_def logged_from_parser del: steps.simps)
  then show ?thesis
    by blast
qed

lemma logged_from_collect:
  assumes "buffered env p r = Inl (Error m)"
  shows "\<exists>w1. snd (steps env (Suc (Suc (Suc (Suc k))))
         \<lparr>task_fileId = fid, task_pc = AwaitCollect p n r\<rparr> w)
     = console_error (js ''Error extracting text from file: '' @ m) w1"
  unfolding steps_Suc_task [of env "Suc (Suc (Suc k))"]
  using logged_from_buffer [OF assms] by (simp only: resume_pc.simps fst_conv snd_conv)

lemma logged_from_handleArrayBuffer:
  assumes "buffered env p (normalized data) = Inl (Error m)"
  shows "\<exists>w1. snd (steps env (Suc (Suc (Suc (Suc k))))
         \<lparr>task_fileId = fid,
            task_pc = fst (await_handleArrayBuffer p n (handleArrayBuffer data w'))\<rparr> w)
     = console_error (js ''Error extracting text from file: '' @ m) w1"
  using handleArrayBuffer_next [of p n data w']
proof
  assume direct: "fst (await_handleArrayBuffer p n (handleArrayBuffer data w'))
        = AwaitBuffer p n (normalized data)"
  show ?thesis
    unfolding direct using assms by (rule logged_from_buffer)
next
  assume collect: "fst (await_handleArrayBuffer p n (handleArrayBuffer data w'))
        = AwaitCollect p n (normalized data)"
  show ?thesis
    unfolding collect using assms by (rule logged_from_collect)
qed

lemma logged_from_failed:
  assumes "c = (AwaitExtractor (Inl (Error m)), w)"
  shows "\<exists>w1. snd (steps env (Suc (Suc (Suc (Suc k))))
         \<lparr>task_fileId = fid, task_pc = fst c\<rparr> (snd c))
     = console_error (js ''Error extracting text from file: '' @ m) w1"
proof -
  have "snd (steps env (Suc (Suc (Suc (Suc k)))) \<lparr>task_fileId = fid, task_pc = fst c\<rparr> (snd c))
      = console_error (js ''Error extracting text from file: '' @ m) w"
    unfolding assms fst_conv snd_conv by (rule logged_from_extractor)
  then show ?thesis
    by blast
qed

lemma logged_from_binary:
  assumes "parsed env p (drive_body env request) = Inl (Error m)"
    and "c = (case drive_body env request of
                Inl err \<Rightarrow> (AwaitExtractor (Inl err), w)
              | Inr data \<Rightarrow> await_handleArrayBuffer p n (handleArrayBuffer data w))"
  shows "\<exists>w1. snd (steps env (Suc (Suc (Suc (Suc k))))
         \<lparr>task_fileId = fid, task_pc = fst c\<rparr> (snd c))
     = console_error (js ''Error extracting text from file: '' @ m) w1"
proof (cases "drive_body env request")
  case (Inl err)
  with assms have "c = (AwaitExtractor (Inl (Error m)), w)"
    by (simp add: parsed_def)
  then show ?thesis
    by (rule logged_from_failed)
next
  case (Inr data)
  with assms have "buffered env p (normalized data) = Inl (Error m)"
    by (simp add: parsed_def)
  from logged_from_handleArrayBuffer [OF this, of k fid n w "snd c"] Inr assms(2) show ?thesis
    by (simp del: steps.simps)
qed

lemma logged_from_content:
  assumes "extracted env e fid = Inl (Error m)"
  shows "\<exists>w1. snd (steps env (Suc (Suc (Suc (Suc (Suc k)))))
         \<lparr>task_fileId = fid, task_pc = AwaitContent e n\<rparr> w)
     = console_error (js ''Error extracting text from file: '' @ m) w1"
  unfolding steps_Suc_task [of env "Suc (Suc (Suc (Suc k)))"] resume_pc.simps
proof (cases e)
  case PDF
  with assms have "parsed env PdfParser (drive_body env (content_request PDF fid))
      = Inl (Error m)"
    by simp
  then show "\<exists>w1. snd (steps env (Suc (Suc (Suc (Suc k))))
         \<lparr>task_fileId = fid, task_pc = fst (extractor_content e env fid n w)\<rparr>
         (snd (extractor_content e env fid n w)))
     = console_error (js ''Error extracting text from file: '' @ m) w1"
    unfolding PDF extractor_content.simps
    by (rule logged_from_binary) (simp only: extractPDFText_content_def)
next
  case WordDoc
  with assms have "parsed env Mammoth (drive_body env (content_request WordDoc fid))
      = Inl (Error m)"
    by simp
  then show "\<exists>w1. snd (steps env (Suc (Suc (Suc (Suc k))))
         \<lparr>task_fileId = fid, task_pc = fst (extractor_content e env fid n w)\<rparr>
         (snd (extractor_content e env fid n w)))
     = console_error (js ''Error extracting text from file: '' @ m) w1"
    unfolding WordDoc extractor_content.simps
    by (rule logged_from_binary) (simp only: extractWordDoc_content_def)
next
  case Document
  with assms have "drive_text env (content_request Document fid) = Inl (Error m)"
    by simp
  then show "\<exists>w1. snd (steps env (Suc (Suc (Suc (Suc k))))
         \<lparr>task_fileId = fid, task_pc = fst (extractor_content e env fid n w)\<rparr>
         (snd (extractor_content e env fid n w)))
     = console_error (js ''Error extracting text from file: '' @ m) w1"
    unfolding Document extractor_content.simps
    by (intro logged_from_failed) (simp add: extractDocumentText_content_def)
next
  case Spreadsheet
  with assms have "drive_text env (content_request Spreadsheet fid) = Inl (Error m)"
    by (cases "drive_text env (content_request Spreadsheet fid)") auto
  then show "\<exists>w1. snd (steps env (Suc (Suc (Suc (Suc k))))
         \<lparr>task_fileId = fid, task_pc = fst (extractor_content e env fid n w)\<rparr>
         (snd (extractor_content e env fid n w)))
     = console_error (js ''Error extracting text from file: '' @ m) w1"
    unfolding Spreadsheet extractor_content.simps
    by (intro logged_from_failed) (simp add: extractSpreadsheetText_content_def)
next
  case Presentation
  with assms have "drive_text env (content_request Presentation fid) = Inl (Error m)"
    by simp
  then show "\<exists>w1. snd (steps env (Suc (Suc (Suc (Suc k))))
         \<lparr>task_fileId = fid, task_pc = fst (extractor_content e env fid n w)\<rparr>
         (snd (extractor_content e env fid n w)))
     = console_error (js ''Error extracting text from file: '' @ m) w1"
    unfolding Presentation extractor_content.simps
    by (intro logged_from_failed) (simp add: extractPresentationText_content_def)
next
  case PlainText
  with assms have "drive_text env (content_request PlainText fid) = Inl (Error m)"
    by simp
  then show "\<exists>w1. snd (steps env (Suc (Suc (Suc (Suc k))))
         \<lparr>task_fileId = fid, task_pc = fst (extractor_content e env fid n w)\<rparr>
         (snd (extractor_content e env fid n w)))
     = console_error (js ''Error extracting text from file: '' @ m) w1"
    unfolding PlainText extractor_content.simps
    by (intro logged_from_failed) (simp add: extractPlainText_content_def)
qed

lemma logged_from_metadata:
  assumes "attempt env fid = Inl (Error m)"
  shows "\<exists>w1. snd (steps env 6 \<lparr>task_fileId = fid, task_pc = AwaitMetadata\<rparr> w)
     = console_error (js ''Error extracting text from file: '' @ m) w1"
proof -
  have six: "(6::nat) = Suc (Suc (Suc (Suc (Suc (Suc 0)))))"
    by simp
  show ?thesis
  proof (cases "drive_metadata env (metadata_request fid)")
    case (Inl err)
    with assms have "snd (steps env 6 \<lparr>task_fileId = fid, task_pc = AwaitMetadata\<rparr> w)
        = console_error (js ''Error extracting text from file: '' @ m) w"
      unfolding six steps_Suc_task [of env "Suc (Suc (Suc (Suc (Suc 0))))"]
      by (simp add: attempt_def extractText_metadata_def extractText_catch_def steps_settled
          del: steps.simps)
    then show ?thesis
      by blast
  next
    case (Inr md)
    show ?thesis
    proof (cases "extractor_for (md_mimeType md)")
      case None
      with Inr assms have "snd (steps env 6 \<lparr>task_fileId = fid, task_pc = AwaitMetadata\<rparr> w)
          = console_error (js ''Error extracting text from file: '' @ m) w"
        unfolding six steps_Suc_task [of env "Suc (Suc (Suc (Suc (Suc 0))))"]
        by (simp add: attempt_def extractText_metadata_def extractText_catch_def steps_settled
            del: steps.simps)
      then show ?thesis
        by blast
    next
      case (Some e)
      with Inr assms have "extracted env e fid = Inl (Error m)"
        by (simp add: attempt_def)
      from logged_from_content [OF this, of 0 "md_name md"] Inr Some show ?thesis
        unfolding six steps_Suc_task [of env "Suc (Suc (Suc (Suc (Suc 0))))"]
        by (simp add: extractText_metadata_def extractor_start_def del: steps.simps)
    qed
  qed
qed

lemma failure_logged:
  assumes "attempt env fid = Inl (Error m)"
  shows "last (trace (snd (steps env 6 (fst (extractText fid w)) w')))
     = ConsoleError (js ''Error extracting text from file: '' @ m)"
proof -
  have start: "fst (extractText fid w) = \<lparr>task_fileId = fid, task_pc = AwaitMetadata\<rparr>"
    by (simp add: extractText_def)
  from logged_from_metadata [OF assms, of w']
  obtain w1 where "snd (steps env 6 \<lparr>task_fileId = fid, task_pc = AwaitMetadata\<rparr> w')
      = console_error (js ''Error extracting text from file: '' @ m) w1"
    by blast
  then show ?thesis
    unfolding start by (simp add: console_error_def emit_def)
qed

lemma resume_pc_failure_logged:
  assumes "fst (resume_pc env fid pc w) = Settled (Inr None)" and "pc \<noteq> Settled (Inr None)"
  shows "\<exists>msg. trace (snd (resume_pc env fid pc w))
           = trace w @ [ConsoleError (js ''Error extracting text from file: '' @ msg)]"
proof (cases pc)
  case AwaitMetadata
  with assms show ?thesis
    by (auto simp: extractText_metadata_def extractText_catch_def extractor_start_def
        console_error_def emit_def split: sum.splits option.splits js_error.splits)
next
  case (AwaitContent e n)
  have "fst (extractor_content e env fid n w) \<noteq> Settled (Inr None)"
    by (cases e)
      (simp_all add: content_defs Let_def await_handleArrayBuffer_def handleArrayBuffer_def
        split: sum.splits option.splits)
  with assms AwaitContent show ?thesis by simp
next
  case (AwaitCollect p n r)
  with assms show ?thesis by simp
next
  case (AwaitBuffer p n r)
  with assms show ?thesis by (simp add: extractor_buffer_def split: sum.splits)
next
  case (AwaitParser p n b)
  with assms show ?thesis by (simp add: fst_extractor_parsed)
next
  case (AwaitExtractor r)
  with assms show ?thesis
    by (auto simp: extractText_return_def extractText_catch_def console_error_def emit_def
        split: sum.splits js_error.splits)
next
  case (Settled r)
  with assms show ?thesis by simp
qed

lemma saveFile_failure_logged:
  assumes "fst (saveFile_try env x n d w) = Some err"
  shows "trace (saveFile env x n d w)
     = trace (snd (saveFile_try env x n d w))
         @ [ConsoleError (cross_mark # js '' Error saving file: '' @ message err)]"
  using assms
  by (cases "saveFile_try env x n d w") (simp add: saveFile_def console_error_def emit_def)

lemma unsupported_skipped:
  assumes "f \<in> set files" and "f_mimeType f \<notin> fileTypes"
  shows "ConsoleLog (cross_mark # js '' Skipping file '' @ f_name f
             @ js '' because it is not a supported file type'')
           \<in> set (trace (snd (main files w)))"
proof -
  from assms(1) have "files \<noteq> []"
    by auto
  with assms show ?thesis
    unfolding main_trace by (auto simp: image_iff intro!: bexI [of _ f])
qed

text \<open>
  Claim C6, as the source has it. Where the collaborators fail only with values that
  have a message, as every instance of \<open>Error\<close> has, no failure leaves the call in
  which it is raised. Under every schedule of the event loop no call of \<open>extractText\<close>
  is rejected at any moment; when every call has been resumed six times each is
  resolved, with what its own answers decide and nothing else. A file of the listing
  whose metadata, content and decoding succeed and whose directory and file the disk
  does not refuse has its artifact written in the batch, whatever the other files do
  and in whatever order the tasks are resumed: the write is among the effects of the
  run, and the file exists at its end. Every failure is printed: a call whose \<open>try\<close>
  block ends with a thrown message prints that message as its last effect, a
  resumption that resolves a call with \<open>undefined\<close> has printed the line of
  \<open>extractText\<close> in that same job, a failed save prints the line of \<open>saveFile\<close>, and a
  file of an unsupported type is skipped by \<open>main\<close> with its own line.
\<close>

theorem failures_do_not_abort_batch:
  "(messages_only env \<longrightarrow>
      list_all (\<lambda>t. \<not> is_rejected (task_pc t)) (fst (run env sched (main files w))))
   \<and> (messages_only env \<longrightarrow> complete sched (length (fst (main files w))) \<longrightarrow>
        map task_pc (fst (run env sched (main files w)))
          = map (\<lambda>f. Settled (settled (attempt env (f_id f))))
              (filter (\<lambda>f. f_mimeType f \<in> fileTypes) files))
   \<and> (messages_only env \<longrightarrow> f \<in> set files \<longrightarrow> f_mimeType f \<in> fileTypes \<longrightarrow>
        complete sched (length (fst (main files w))) \<longrightarrow>
        drive_metadata env (metadata_request (f_id f)) = Inr md \<longrightarrow>
        extractor_for (md_mimeType md) = Some e \<longrightarrow>
        extracted env e (f_id f) = Inr x \<longrightarrow>
        mkdir_error env (fs_resolve (outputDir e)) = None \<longrightarrow>
        write_error env (artifact_loc (md_name md) (outputDir e)) = None \<longrightarrow>
          FsWrite (artifact_loc (md_name md) (outputDir e)) x
            \<in> set (trace (snd (run env sched (main files w))))
          \<and> fs_files (snd (run env sched (main files w)))
              (artifact_loc (md_name md) (outputDir e)) \<noteq> None)
   \<and> (attempt env fid = Inl (Error m) \<longrightarrow>
        last (trace (snd (steps env 6 (fst (extractText fid w)) w')))
          = ConsoleError (js ''Error extracting text from file: '' @ m))
   \<and> (fst (resume_pc env fid pc w) = Settled (Inr None) \<longrightarrow> pc \<noteq> Settled (Inr None) \<longrightarrow>
        (\<exists>msg. trace (snd (resume_pc env fid pc w))
           = trace w @ [ConsoleError (js ''Error extracting text from file: '' @ msg)]))
   \<and> (fst (saveFile_try env x n d w) = Some err \<longrightarrow>
        trace (saveFile env x n d w)
          = trace (snd (saveFile_try env x n d w))
              @ [ConsoleError (cross_mark # js '' Error saving file: '' @ message err)])
   \<and> (f \<in> set files \<longrightarrow> f_mimeType f \<notin> fileTypes \<longrightarrow>
        ConsoleLog (cross_mark # js '' Skipping file '' @ f_name f
             @ js '' because it is not a supported file type'')
           \<in> set (trace (snd (main files w))))"
proof (intro conjI impI)
  show "list_all (\<lambda>t. \<not> is_rejected (task_pc t)) (fst (run env sched (main files w)))"
    if "messages_only env"
    using that by (rule batch_not_rejected)
  show "map task_pc (fst (run env sched (main files w)))
          = map (\<lambda>f. Settled (settled (attempt env (f_id f))))
              (filter (\<lambda>f. f_mimeType f \<in> fileTypes) files)"
    if "complete sched (length (fst (main files w)))"
    using that by (rule batch_outcomes)
  show "FsWrite (artifact_loc (md_name md) (outputDir e)) x
            \<in> set (trace (snd (run env sched (main files w))))"
    if "f \<in> set files" and "f_mimeType f \<in> fileTypes"
      and "complete sched (length (fst (main files w)))"
      and "drive_metadata env (metadata_request (f_id f)) = Inr md"
      and "extractor_for (md_mimeType md) = Some e"
      and "extracted env e (f_id f) = Inr x"
      and "mkdir_error env (fs_resolve (outputDir e)) = None"
      and "write_error env (artifact_loc (md_name md) (outputDir e)) = None"
    using that by (rule batch_writes_artifact)
  show "fs_files (snd (run env sched (main files w)))
              (artifact_loc (md_name md) (outputDir e)) \<noteq> None"
    if "f \<in> set files" and "f_mimeType f \<in> fileTypes"
      and "complete sched (length (fst (main files w)))"
      and "drive_metadata env (metadata_request (f_id f)) = Inr md"
      and "extractor_for (md_mimeType md) = Some e"
      and "extracted env e (f_id f) = Inr x"
      and "mkdir_error env (fs_resolve (outputDir e)) = None"
      and "write_error env (artifact_loc (md_name md) (outputDir e)) = None"
    using that by (rule batch_writes_artifact)
  show "last (trace (snd (steps env 6 (fst (extractText fid w)) w')))
          = ConsoleError (js ''Error extracting text from file: '' @ m)"
    if "attempt env fid = Inl (Error m)"
    using that by (rule failure_logged)
  show "\<exists>msg. trace (snd (resume_pc env fid pc w))
           = trace w @ [ConsoleError (js ''Error extracting text from file: '' @ msg)]"
    if "fst (resume_pc env fid pc w) = Settled (Inr None)" and "pc \<noteq> Settled (Inr None)"
    using that by (rule resume_pc_failure_logged)
  show "trace (saveFile env x n d w)
          = trace (snd (saveFile_try env x n d w))
              @ [ConsoleError (cross_mark # js '' Error saving file: '' @ message err)]"
    if "fst (saveFile_try env x n d w) = Some err"
    using that by (rule saveFile_failure_logged)
  show "ConsoleLog (cross_mark # js '' Skipping file '' @ f_name f
             @ js '' because it is not a supported file type'')
           \<in> set (trace (snd (main files w)))"
    if "f \<in> set files" and "f_mimeType f \<notin> fileTypes"
    using that by (rule unsupported_skipped)
qed

theorem failures_do_not_abort_batch_witness:
  "list_all (\<lambda>t. \<not> is_rejected (task_pc t))
     (fst (run mixed_env [0, 1, 1, 0, 0, 1, 0, 1, 1, 0, 1, 0]
            (main [example_file ''bad'' ''broken.pdf'' ''application/pdf'',
                   example_file ''good'' ''notes.txt'' ''text/plain''] empty_world)))
   \<and> FsWrite (fs_resolve (js ''./saved-outputs/plain-text/notes-converted.txt'')) (js ''hello'')
       \<in> set (trace (snd (run mixed_env [0, 1, 1, 0, 0, 1, 0, 1, 1, 0, 1, 0]
            (main [example_file ''bad'' ''broken.pdf'' ''application/pdf'',
                   example_file ''good'' ''notes.txt'' ''text/plain''] empty_world))))
   \<and> last (trace (snd (steps mixed_env 6 (fst (extractText (js ''bad'') empty_world))
              empty_world)))
       = ConsoleError (js ''Error extracting text from file: Invalid PDF structure'')"
proof -
  let ?bad = "example_file ''bad'' ''broken.pdf'' ''application/pdf''"
  let ?good = "example_file ''good'' ''notes.txt'' ''text/plain''"
  let ?sched = "[0, 1, 1, 0, 0, 1, 0, 1, 1, 0, 1, 0] :: nat list"
  let ?md = "\<lparr>md_name = js ''notes.txt'', md_mimeType = js ''text/plain''\<rparr>"
  note batch = failures_do_not_abort_batch [where env = mixed_env and sched = ?sched
      and files = "[?bad, ?good]" and w = empty_world and f = ?good and md = ?md
      and e = PlainText and x = "js ''hello''" and fid = "js ''bad''"
      and m = "js ''Invalid PDF structure''" and w' = empty_world]
  have errors: "messages_only mixed_env"
    by (simp add: messages_only_def mixed_env_def parsed_def buffered_def normalized_def)
  have member: "?good \<in> set [?bad, ?good]"
    by simp
  have supported: "f_mimeType ?good \<in> fileTypes"
    by (simp add: example_file_def fileTypes_def)
  have sched: "complete ?sched (length (fst (main [?bad, ?good] empty_world)))"
    by code_simp
  have answered: "drive_metadata mixed_env (metadata_request (f_id ?good)) = Inr ?md"
    by code_simp
  have type: "extractor_for (md_mimeType ?md) = Some PlainText"
    by code_simp
  have success: "extracted mixed_env PlainText (f_id ?good) = Inr (js ''hello'')"
    by (simp add: mixed_env_def)
  have dir_ok: "mkdir_error mixed_env (fs_resolve (outputDir PlainText)) = None"
    by (simp add: mixed_env_def)
  have file_ok: "write_error mixed_env (artifact_loc (md_name ?md) (outputDir PlainText)) = None"
    by (simp add: mixed_env_def)
  have failed: "attempt mixed_env (js ''bad'') = Inl (Error (js ''Invalid PDF structure''))"
    by code_simp
  have loc: "artifact_loc (md_name ?md) (outputDir PlainText)
      = fs_resolve (js ''./saved-outputs/plain-text/notes-converted.txt'')"
    by code_simp
  have line: "js ''Error extracting text from file: '' @ js ''Invalid PDF structure''
      = js ''Error extracting text from file: Invalid PDF structure''"
    by (simp add: js_def)
  have first: "list_all (\<lambda>t. \<not> is_rejected (task_pc t))
      (fst (run mixed_env ?sched (main [?bad, ?good] empty_world)))"
    by (rule batch [THEN conjunct1, THEN mp, OF errors])
  have "FsWrite (artifact_loc (md_name ?md) (outputDir PlainText)) (js ''hello'')
        \<in> set (trace (snd (run mixed_env ?sched (main [?bad, ?good] empty_world))))
      \<and> fs_files (snd (run mixed_env ?sched (main [?bad, ?good] empty_world)))
          (artifact_loc (md_name ?md) (outputDir PlainText)) \<noteq> None"
    by (rule batch [THEN conjunct2, THEN conjunct2, THEN conjunct1,
          THEN mp, THEN mp, THEN mp, THEN mp, THEN mp, THEN mp, THEN mp, THEN mp, THEN mp,
          OF errors member supported sched answered type success dir_ok file_ok])
  then have second: "FsWrite (fs_resolve (js ''./saved-outputs/plain-text/notes-converted.txt''))
        (js ''hello'')
      \<in> set (trace (snd (run mixed_env ?sched (main [?bad, ?good] empty_world))))"
    unfolding loc by (rule conjunct1)
  have third: "last (trace (snd (steps mixed_env 6 (fst (extractText (js ''bad'') empty_world))
              empty_world)))
       = ConsoleError (js ''Error extracting text from file: Invalid PDF structure'')"
    using batch [THEN conjunct2, THEN conjunct2, THEN conjunct2, THEN conjunct1, THEN mp,
        OF failed]
    unfolding line .
  from first second third show ?thesis
    by (intro conjI)
qed

text \<open>
  The claim as stated, that every failure is caught at the boundary of the file and
  recorded, fails when a request is rejected with \<open>undefined\<close>: the \<open>catch\<close> block of
  \<open>extractText\<close> throws while it reads \<open>error.message\<close>, so after the first job of
  that call its promise is rejected, and nothing has been printed with
  \<open>console.error\<close>.
\<close>

theorem undefined_rejection_counterexample:
  "map task_pc (fst (run undefined_env [0]
        (main [example_file ''bad'' ''notes.txt'' ''text/plain'',
               example_file ''good'' ''notes.txt'' ''text/plain''] empty_world)))
     = [Settled (Inl (type_error (js ''undefined''))), AwaitMetadata]
   \<and> console_errors (trace (snd (run undefined_env [0]
        (main [example_file ''bad'' ''notes.txt'' ''text/plain'',
               example_file ''good'' ''notes.txt'' ''text/plain''] empty_world)))) = []"
  by code_simp

end
